theory Spec2Isabelle
  imports Complex_Main "HOL-Library.Word"
begin

section \<open>The evolving video creator of \<^verbatim>\<open>pythonimp.py\<close>\<close>

text \<open>
  The theory embeds the class \<^verbatim>\<open>EvolvingVideoCreator\<close>: the frame loop of
  \<^verbatim>\<open>create_evolving_video\<close> (lines 17-63) and the transform \<^verbatim>\<open>evolve_frame\<close>
  (lines 65-92).

  Numbers. Python's \<^verbatim>\<open>float\<close> and the float32/float64 arrays of NumPy are modelled as
  \<^typ>\<open>real\<close>: arithmetic is exact, IEEE rounding is not modelled. Python's unbounded
  \<^verbatim>\<open>int\<close> is \<^typ>\<open>int\<close>, an index that the loop counts is \<^typ>\<open>nat\<close>, and a
  \<^verbatim>\<open>uint8\<close> sample is an \<^typ>\<open>8 word\<close>.

  Arrays. An image of shape (rows, columns, 3) is a list of rows, each a list of pixels,
  each a triple of samples. NumPy arrays are rectangular; where a statement needs that, it
  says so.

  Libraries. The calls into OpenCV and NumPy are modelled after the documented behaviour
  of the called function on the data the program passes (float arrays with three
  channels); each such definition says which call it stands for.
\<close>

subsection \<open>Python and NumPy arithmetic\<close>

definition py_int :: "real \<Rightarrow> int" where
  \<comment> \<open>\<^verbatim>\<open>int(x)\<close> of a float: truncation towards zero.\<close>
  "py_int x = (if 0 \<le> x then \<lfloor>x\<rfloor> else \<lceil>x\<rceil>)"

definition py_mod :: "real \<Rightarrow> real \<Rightarrow> real" where
  \<comment> \<open>\<^verbatim>\<open>x % m\<close> on floats: the remainder takes the sign of the divisor.\<close>
  "py_mod x m = x - m * of_int \<lfloor>x / m\<rfloor>"

definition clip :: "real \<Rightarrow> real \<Rightarrow> real \<Rightarrow> real" where
  \<comment> \<open>\<^verbatim>\<open>np.clip(x, lo, hi)\<close>, which is \<^verbatim>\<open>minimum(maximum(x, lo), hi)\<close>.\<close>
  "clip x lo hi = min (max x lo) hi"

definition to_uint8 :: "real \<Rightarrow> 8 word" where
  \<comment> \<open>\<^verbatim>\<open>x.astype(np.uint8)\<close>: the fraction is dropped; a value outside 0..255 wraps, as
     the conversion through a wider integer does.\<close>
  "to_uint8 x = word_of_int (py_int x)"

definition byte_value :: "8 word \<Rightarrow> real" where
  \<comment> \<open>A \<^verbatim>\<open>uint8\<close> sample as a number, 0 to 255.\<close>
  "byte_value w = real (unat w)"

subsection \<open>Images\<close>

type_synonym 'a pixel = "'a \<times> 'a \<times> 'a"

type_synonym buffer = "real pixel list list"

type_synonym image = "8 word pixel list list"

fun map_px :: "('a \<Rightarrow> 'b) \<Rightarrow> 'a pixel \<Rightarrow> 'b pixel" where
  "map_px f (a, b, c) = (f a, f b, f c)"

fun add_px :: "real pixel \<Rightarrow> real pixel \<Rightarrow> real pixel" where
  "add_px (a, b, c) (a', b', c') = (a + a', b + b', c + c')"

fun unit_px :: "real pixel \<Rightarrow> bool" where
  "unit_px (a, b, c) = (0 \<le> a \<and> a \<le> 1 \<and> 0 \<le> b \<and> b \<le> 1 \<and> 0 \<le> c \<and> c \<le> 1)"

definition in_unit :: "buffer \<Rightarrow> bool" where
  \<comment> \<open>Every sample of the buffer lies in [0, 1].\<close>
  "in_unit b = list_all (list_all unit_px) b"

definition rect :: "nat \<Rightarrow> 'a list list \<Rightarrow> bool" where
  \<comment> \<open>Every row has \<open>w\<close> columns.\<close>
  "rect w b = list_all (\<lambda>row. length row = w) b"

definition map_rc :: "(nat \<Rightarrow> nat \<Rightarrow> 'a \<Rightarrow> 'b) \<Rightarrow> 'a list list \<Rightarrow> 'b list list" where
  \<comment> \<open>An array of the same shape, computed entry by entry from the row and column index and
     the entry there.\<close>
  "map_rc f b = map (\<lambda>r. map (\<lambda>c. f r c (b ! r ! c)) [0..<length (b ! r)]) [0..<length b]"

subsection \<open>The creator and its parameters\<close>

record EvolvingVideoCreator =
  fps :: int
  duration :: real
  evolution_strength :: real
  output_size :: "nat \<times> nat"

definition init :: EvolvingVideoCreator where
  \<comment> \<open>\<^verbatim>\<open>__init__\<close>, lines 10-15.\<close>
  "init = \<lparr>fps = 30, duration = 10, evolution_strength = 5 / 100, output_size = (512, 512)\<rparr>"

definition total_frames :: "EvolvingVideoCreator \<Rightarrow> int" where
  \<comment> \<open>Line 24.\<close>
  "total_frames c = py_int (of_int (fps c) * duration c)"

definition overwrite_position :: "nat \<Rightarrow> int \<Rightarrow> nat \<Rightarrow> int" where
  \<comment> \<open>Line 36, with \<open>S\<close> for \<^verbatim>\<open>self.output_size[1]\<close>.\<close>
  "overwrite_position i T S = py_int ((real i / of_int T) * real S)"

definition overwrite_width :: "int \<Rightarrow> nat \<Rightarrow> int" where
  \<comment> \<open>Line 37.\<close>
  "overwrite_width T S = max 1 (py_int (real S / of_int T * 2))"

subsection \<open>Column slices\<close>

definition slice_index :: "nat \<Rightarrow> int \<Rightarrow> nat" where
  \<comment> \<open>A slice bound \<open>k\<close> on an axis of length \<open>n\<close>: a negative bound counts from the end,
     and every bound is clamped to the axis.\<close>
  "slice_index n k = (if k < 0 then nat (max 0 (int n + k)) else min n (nat k))"

definition in_slice :: "nat \<Rightarrow> int \<Rightarrow> int option \<Rightarrow> nat \<Rightarrow> bool" where
  \<comment> \<open>Column \<open>j\<close> is selected by \<^verbatim>\<open>lo:hi\<close> (\<^verbatim>\<open>lo:\<close> when \<open>hi\<close> is \<open>None\<close>).\<close>
  "in_slice n lo hi j =
     (slice_index n lo \<le> j \<and> j < (case hi of None \<Rightarrow> n | Some h \<Rightarrow> slice_index n h))"

definition assign_columns :: "int \<Rightarrow> int option \<Rightarrow> 'a list list \<Rightarrow> 'a list list \<Rightarrow> 'a list list" where
  \<comment> \<open>\<^verbatim>\<open>cur[:, lo:hi] = ev[:, lo:hi]\<close> for two arrays of one shape.\<close>
  "assign_columns lo hi cur ev =
     map_rc (\<lambda>r j x. if in_slice (length (cur ! r)) lo hi j then ev ! r ! j else x) cur"

definition overwrite :: "EvolvingVideoCreator \<Rightarrow> int \<Rightarrow> nat \<Rightarrow> 'a list list \<Rightarrow> 'a list list \<Rightarrow> 'a list list" where
  \<comment> \<open>Lines 36-48: the circular overwrite of step \<open>i\<close> out of \<open>T\<close>.\<close>
  "overwrite c T i cur ev =
     (let S = snd (output_size c);
          pos = overwrite_position i T S;
          w = overwrite_width T S
      in if pos + w > int S then
           let overflow = (pos + w) - int S
           in assign_columns 0 (Some overflow) (assign_columns pos None cur ev) ev
         else assign_columns pos (Some (pos + w)) cur ev)"

definition overwrite_region :: "nat \<Rightarrow> nat \<Rightarrow> int \<Rightarrow> nat \<Rightarrow> nat \<Rightarrow> bool" where
  \<comment> \<open>Column \<open>j\<close> of an axis of length \<open>n\<close> is selected by the slices of lines 40-48 at
     step \<open>i\<close> out of \<open>T\<close>, with \<open>S\<close> for \<^verbatim>\<open>self.output_size[1]\<close>.\<close>
  "overwrite_region n S T i j =
     (let pos = overwrite_position i T S;
          w = overwrite_width T S
      in if pos + w > int S then
           in_slice n pos None j \<or> in_slice n 0 (Some ((pos + w) - int S)) j
         else in_slice n pos (Some (pos + w)) j)"

definition frame_to_save :: "buffer \<Rightarrow> image" where
  \<comment> \<open>Line 51: \<^verbatim>\<open>(current_frame * 255).astype(np.uint8)\<close>.\<close>
  "frame_to_save b = map (map (map_px (\<lambda>x. to_uint8 (x * 255)))) b"

definition sample_values :: "image \<Rightarrow> buffer" where
  \<comment> \<open>The samples of an 8-bit image as numbers, to compare them with a float buffer.\<close>
  "sample_values img = map (map (map_px byte_value)) img"

definition initial_frame :: "image \<Rightarrow> buffer" where
  \<comment> \<open>Line 28: \<^verbatim>\<open>img.astype(np.float32) / 255.0\<close>.\<close>
  "initial_frame img = map (map (map_px (\<lambda>w. byte_value w / 255))) img"

subsection \<open>The transform\<close>

definition hue_shift :: "real \<Rightarrow> real" where
  \<comment> \<open>Line 70.\<close>
  "hue_shift progress = sin (progress * 2 * pi) * (1 / 10)"

definition saturation_factor :: "real \<Rightarrow> real" where
  \<comment> \<open>Line 71.\<close>
  "saturation_factor progress = 1 + sin (progress * 3 * pi) * (1 / 10)"

definition hue_period :: real where
  \<comment> \<open>The hue of \<^verbatim>\<open>cv2.cvtColor\<close> on floating-point data is an angle in degrees, 0 to 360
     (on 8-bit data it is halved to fit a byte, 0 to 180). The buffer is float32 (line 28).\<close>
  "hue_period = 360"

fun rgb2hsv :: "real pixel \<Rightarrow> real pixel" where
  \<comment> \<open>\<^verbatim>\<open>cv2.cvtColor(., cv2.COLOR_RGB2HSV)\<close> on floating-point data: value and saturation
     in [0, 1], hue in degrees.\<close>
  "rgb2hsv (r, g, b) =
     (let v = max r (max g b);
          d = v - min r (min g b);
          s = (if v = 0 then 0 else d / v);
          h = (if d = 0 then 0
               else if v = r then 60 * (g - b) / d
               else if v = g then 120 + 60 * (b - r) / d
               else 240 + 60 * (r - g) / d)
      in (if h < 0 then h + 360 else h, s, v))"

fun hsv2rgb :: "real pixel \<Rightarrow> real pixel" where
  \<comment> \<open>\<^verbatim>\<open>cv2.cvtColor(., cv2.COLOR_HSV2RGB)\<close> on floating-point data.\<close>
  "hsv2rgb (h, s, v) =
     (if s = 0 then (v, v, v)
      else
        let h6 = py_mod (h / 60) 6;
            sector = \<lfloor>h6\<rfloor>;
            f = h6 - of_int sector;
            p = v * (1 - s);
            q = v * (1 - s * f);
            t = v * (1 - s * (1 - f))
        in if sector = 0 then (v, t, p)
           else if sector = 1 then (q, v, p)
           else if sector = 2 then (p, v, t)
           else if sector = 3 then (p, q, v)
           else if sector = 4 then (t, p, v)
           else (v, p, q))"

fun shift_hsv :: "real \<Rightarrow> real pixel \<Rightarrow> real pixel" where
  \<comment> \<open>Lines 77 and 80, on one pixel.\<close>
  "shift_hsv progress (h, s, v) =
     (py_mod (h + hue_shift progress * 180) 180, clip (s * saturation_factor progress) 0 1, v)"

definition recolor :: "real \<Rightarrow> real pixel \<Rightarrow> real pixel" where
  \<comment> \<open>Lines 74-83, on one pixel.\<close>
  "recolor progress p = hsv2rgb (shift_hsv progress (rgb2hsv p))"

definition add_noise :: "real \<Rightarrow> (nat \<Rightarrow> nat \<Rightarrow> real pixel) \<Rightarrow> buffer \<Rightarrow> buffer" where
  \<comment> \<open>Lines 86-87. \<^verbatim>\<open>np.random.normal(0, strength, shape)\<close> is \<open>0 + strength * z\<close> for an
     array \<open>z\<close> of standard normal variates, which the generator's state determines; NumPy
     refuses a negative \<open>strength\<close>, so the model is of runs with a strength that is not
     negative.\<close>
  "add_noise strength z b =
     map_rc (\<lambda>r c x. map_px (\<lambda>e. clip e 0 1) (add_px x (map_px (\<lambda>n. 0 + strength * n) (z r c)))) b"

definition reflect101 :: "nat \<Rightarrow> int \<Rightarrow> nat" where
  \<comment> \<open>The default border of OpenCV's filters (\<^verbatim>\<open>BORDER_REFLECT_101\<close>), for an index at
     most one step outside an axis of length \<open>n\<close>.\<close>
  "reflect101 n j =
     (if n \<le> 1 then 0
      else if j < 0 then nat (- j)
      else if int n \<le> j then nat (2 * int n - 2 - j)
      else nat j)"

definition kernel3 :: "(int \<times> real) list" where
  \<comment> \<open>The Gaussian kernel OpenCV uses for size 3 when sigma is 0: offsets and weights.\<close>
  "kernel3 = [(- 1, 1 / 4), (0, 1 / 2), (1, 1 / 4)]"

definition neighbour :: "buffer \<Rightarrow> nat \<Rightarrow> nat \<Rightarrow> int \<Rightarrow> int \<Rightarrow> real pixel" where
  \<comment> \<open>The pixel \<open>dr\<close> rows and \<open>dc\<close> columns away from (\<open>r\<close>, \<open>c\<close>), reflected at the border.\<close>
  "neighbour b r c dr dc =
     b ! reflect101 (length b) (int r + dr) ! reflect101 (length (b ! r)) (int c + dc)"

definition blur_sample :: "(real pixel \<Rightarrow> real) \<Rightarrow> buffer \<Rightarrow> nat \<Rightarrow> nat \<Rightarrow> real" where
  \<comment> \<open>The blurred sample of channel \<open>ch\<close> at (\<open>r\<close>, \<open>c\<close>): the 3 by 3 weighted sum.\<close>
  "blur_sample ch b r c =
     (\<Sum>(dr, wr) \<leftarrow> kernel3. \<Sum>(dc, wc) \<leftarrow> kernel3. wr * wc * ch (neighbour b r c dr dc))"

definition GaussianBlur :: "buffer \<Rightarrow> buffer" where
  \<comment> \<open>Line 90: \<^verbatim>\<open>cv2.GaussianBlur(evolved, (3, 3), 0)\<close>, each channel on its own.\<close>
  "GaussianBlur b =
     map_rc (\<lambda>r c x. (blur_sample fst b r c, blur_sample (fst \<circ> snd) b r c, blur_sample (snd \<circ> snd) b r c)) b"

definition evolve_frame :: "EvolvingVideoCreator \<Rightarrow> (nat \<Rightarrow> nat \<Rightarrow> real pixel) \<Rightarrow> buffer \<Rightarrow> real \<Rightarrow> buffer" where
  \<comment> \<open>Lines 65-92; \<open>z\<close> is the array of standard normal variates this call draws. The
     argument is copied first (line 67), so the caller's buffer is not changed.\<close>
  "evolve_frame c z frame progress =
     GaussianBlur (add_noise (evolution_strength c) z (map (map (recolor progress)) frame))"

subsection \<open>The frame loop\<close>

record loop_state =
  current_frame :: buffer
  frames :: "image list"

definition loop_body :: "EvolvingVideoCreator \<Rightarrow> (nat \<Rightarrow> nat \<Rightarrow> nat \<Rightarrow> real pixel) \<Rightarrow> int \<Rightarrow> nat \<Rightarrow> loop_state \<Rightarrow> loop_state" where
  \<comment> \<open>Lines 32-52, one iteration. \<open>z i\<close> is the noise array of the \<open>i\<close>-th call of the
     generator since the run began.\<close>
  "loop_body c z T i st =
     (let evolved_frame = evolve_frame c (z i) (current_frame st) (real i / of_int T);
          cur = overwrite c T i (current_frame st) evolved_frame
      in \<lparr>current_frame = cur, frames = frames st @ [frame_to_save cur]\<rparr>)"

definition run_steps :: "EvolvingVideoCreator \<Rightarrow> (nat \<Rightarrow> nat \<Rightarrow> nat \<Rightarrow> real pixel) \<Rightarrow> image \<Rightarrow> nat \<Rightarrow> loop_state" where
  \<comment> \<open>Lines 24-31 and the first \<open>n\<close> iterations of the loop.\<close>
  "run_steps c z img n =
     fold (loop_body c z (total_frames c)) [0..<n] \<lparr>current_frame = initial_frame img, frames = []\<rparr>"

definition generate_frames :: "EvolvingVideoCreator \<Rightarrow> (nat \<Rightarrow> nat \<Rightarrow> nat \<Rightarrow> real pixel) \<Rightarrow> image \<Rightarrow> image list" where
  \<comment> \<open>Lines 24-55: \<^verbatim>\<open>range(total_frames)\<close> is empty when \<open>total_frames\<close> is not positive.\<close>
  "generate_frames c z img = frames (run_steps c z img (nat (total_frames c)))"

fun reverse_channels :: "'a pixel \<Rightarrow> 'a pixel" where
  \<comment> \<open>\<^verbatim>\<open>frame[:, :, ::-1]\<close> on one pixel.\<close>
  "reverse_channels (a, b, c) = (c, b, a)"

definition create_evolving_video ::
  "(string \<Rightarrow> nat \<times> nat \<Rightarrow> 'e + image) \<Rightarrow> (image list \<Rightarrow> int \<Rightarrow> string \<Rightarrow> 'e option) \<Rightarrow>
   (nat \<Rightarrow> nat \<Rightarrow> nat \<Rightarrow> real pixel) \<Rightarrow> EvolvingVideoCreator \<Rightarrow> string \<Rightarrow> string \<Rightarrow> 'e + string" where
  \<comment> \<open>Lines 17-63. The collaborators are parameters: \<open>load\<close> stands for \<^verbatim>\<open>cv2.imread\<close>
     followed by \<^verbatim>\<open>cv2.resize\<close>, \<open>write\<close> for \<^verbatim>\<open>ImageSequenceClip\<close> followed by
     \<^verbatim>\<open>write_videofile\<close>; each may raise an exception \<open>'e\<close>. The function itself raises
     nothing.\<close>
  "create_evolving_video load write z c image_path output_path =
     (case load image_path (output_size c) of
        Inl e \<Rightarrow> Inl e
      | Inr img \<Rightarrow>
          (case write (map (map (map reverse_channels)) (generate_frames c z img)) (fps c) output_path of
             Some e \<Rightarrow> Inl e
           | None \<Rightarrow> Inr output_path))"

datatype 'e failure = IndexError | InvalidConfiguration | Raised 'e
  \<comment> \<open>How a run can fail: \<open>IndexError\<close> is Python's exception for an index outside a list,
     \<open>Raised e\<close> an exception \<open>e\<close> of the image loader or of the encoder.
     \<open>InvalidConfiguration\<close> is the error kind of the specification's section 7; no line
     of the code raises it.\<close>

definition ImageSequenceClip :: "image list \<Rightarrow> int \<Rightarrow> 'e failure + image list \<times> int" where
  \<comment> \<open>Line 59, the constructor of moviepy's clip: it reads \<^verbatim>\<open>sequence[0]\<close> to tell file
     names from arrays, which on an empty list is an \<open>IndexError\<close>; otherwise the clip holds
     the frames and the rate.\<close>
  "ImageSequenceClip sequence rate = (if sequence = [] then Inl IndexError else Inr (sequence, rate))"

definition write_clip ::
  "(image list \<Rightarrow> int \<Rightarrow> string \<Rightarrow> 'e option) \<Rightarrow> image list \<Rightarrow> int \<Rightarrow> string \<Rightarrow> 'e failure option" where
  \<comment> \<open>Lines 59-60, as the argument \<open>write\<close> of \<open>create_evolving_video\<close>: the clip is built
     first, and only a clip that was built is handed to \<^verbatim>\<open>write_videofile\<close>, the encoder
     \<open>encode\<close> that writes the file at the path.\<close>
  "write_clip encode sequence rate path =
     (case ImageSequenceClip sequence rate of
        Inl e \<Rightarrow> Some e
      | Inr (clip_frames, clip_rate) \<Rightarrow> map_option Raised (encode clip_frames clip_rate path))"

definition no_noise :: "nat \<Rightarrow> nat \<Rightarrow> nat \<Rightarrow> real pixel" where
  \<comment> \<open>A generator state whose variates are all 0, for evaluating a run at a concrete input.\<close>
  "no_noise i r c = (0, 0, 0)"

subsection \<open>Concrete runs\<close>

text \<open>Small inputs at which the statements below are evaluated.\<close>

definition small_run :: EvolvingVideoCreator where
  \<comment> \<open>One frame of 2 by 2 pixels, strength 0.\<close>
  "small_run = \<lparr>fps = 1, duration = 1, evolution_strength = 0, output_size = (2, 2)\<rparr>"

definition stripes :: image where
  \<comment> \<open>A black column and a white column.\<close>
  "stripes = [[(0, 0, 0), (255, 255, 255)], [(0, 0, 0), (255, 255, 255)]]"

definition wide :: EvolvingVideoCreator where
  \<comment> \<open>Four frames of width 4 and height 2: \<^verbatim>\<open>cv2.resize\<close> takes the size as
     (width, height) and returns an array of 2 rows and 4 columns.\<close>
  "wide = \<lparr>fps = 1, duration = 4, evolution_strength = 0, output_size = (4, 2)\<rparr>"

section \<open>Basic facts\<close>

lemma length_map_rc [simp]: "length (map_rc f b) = length b"
  by (simp add: map_rc_def)

lemma length_map_rc_nth [simp]: "r < length b \<Longrightarrow> length (map_rc f b ! r) = length (b ! r)"
  by (simp add: map_rc_def)

lemma map_rc_nth [simp]:
  "r < length b \<Longrightarrow> c < length (b ! r) \<Longrightarrow> map_rc f b ! r ! c = f r c (b ! r ! c)"
  by (simp add: map_rc_def)

subsection \<open>Position and width as integer division\<close>

lemma overwrite_position_div:
  assumes "0 < t"
  shows "overwrite_position i (int t) S = int ((i * S) div t)"
proof -
  have nn: "0 \<le> (real i / of_int (int t)) * real S" by simp
  have "(real i / of_int (int t)) * real S = real (i * S) / real t" by simp
  then have "\<lfloor>(real i / of_int (int t)) * real S\<rfloor> = int ((i * S) div t)"
    by (simp only: floor_divide_of_nat_eq)
  with nn show ?thesis by (simp add: overwrite_position_def py_int_def)
qed

lemma overwrite_width_div:
  assumes "0 < t"
  shows "overwrite_width (int t) S = int (max 1 ((2 * S) div t))"
proof -
  have nn: "0 \<le> real S / of_int (int t) * 2" by simp
  have "real S / of_int (int t) * 2 = real (2 * S) / real t" by simp
  then have "\<lfloor>real S / of_int (int t) * 2\<rfloor> = int ((2 * S) div t)"
    by (simp only: floor_divide_of_nat_eq)
  with nn show ?thesis by (simp add: overwrite_width_def py_int_def)
qed

lemma step_le_width:
  fixes t :: nat
  assumes t: "0 < t"
  shows "(a + W) div t \<le> a div t + max 1 ((2 * W) div t)"
proof -
  define q where "q = a div t"
  define k where "k = (2 * W) div t"
  define m where "m = max 1 k"
  have a: "a < t + q * t" unfolding q_def using t by (rule dividend_less_div_times)
  have w: "2 * W < t + k * t" unfolding k_def using t by (rule dividend_less_div_times)
  have eq: "(q + m + 1) * t = q * t + m * t + t" by (simp add: algebra_simps)
  have m1: "t \<le> m * t" unfolding m_def by (simp add: max_def)
  have mk: "k * t \<le> m * t" unfolding m_def by (simp add: max_def)
  have "a + W < (q + m + 1) * t"
  proof (cases "W < t")
    case True
    with a m1 show ?thesis unfolding eq by linarith
  next
    case False
    with a w mk show ?thesis unfolding eq by linarith
  qed
  then have "(a + W) div t < q + m + 1"
    using t by (simp only: div_less_iff_less_mult)
  then show ?thesis unfolding q_def m_def k_def by simp
qed

lemma cover_step:
  fixes t :: nat
  assumes t: "0 < t" and j: "j < W"
  shows "\<exists>i<t. (i * W) div t \<le> j \<and> j < (i * W) div t + max 1 ((2 * W) div t)"
proof -
  define n where "n = (j + 1) * t"
  define i where "i = (n - 1) div W"
  have W: "0 < W" using j by simp
  have n: "0 < n" using t by (simp add: n_def)
  have "n \<le> W * t" unfolding n_def using j by (intro mult_le_mono1) simp
  moreover have "t * W = W * t" by (rule mult.commute)
  ultimately have "n - 1 < t * W" using n by linarith
  then have it: "i < t" unfolding i_def using W by (simp only: div_less_iff_less_mult)
  have "i * W \<le> n - 1" unfolding i_def by (rule div_times_less_eq_dividend)
  then have "i * W < (j + 1) * t" using n unfolding n_def by linarith
  then have "(i * W) div t < j + 1" using t by (simp only: div_less_iff_less_mult)
  then have lo: "(i * W) div t \<le> j" by simp
  have "n - 1 < W + i * W" unfolding i_def using W by (rule dividend_less_div_times)
  then have "n \<le> W + i * W" by linarith
  then have "(j + 1) * t \<le> i * W + W" unfolding n_def by (simp only: add.commute)
  then have "j + 1 \<le> (i * W + W) div t" using t by (simp only: less_eq_div_iff_mult_less_eq)
  also have "\<dots> \<le> (i * W) div t + max 1 ((2 * W) div t)" using t by (rule step_le_width)
  finally have hi: "j < (i * W) div t + max 1 ((2 * W) div t)" by simp
  from it lo hi show ?thesis by blast
qed

subsection \<open>The blur\<close>

lemma reflect101_less:
  assumes "0 < n" "- 1 \<le> j" "j \<le> int n"
  shows "reflect101 n j < n"
  using assms by (auto simp add: reflect101_def)

lemma blur_sample_terms:
  "blur_sample ch b r c =
     (ch (neighbour b r c (- 1) (- 1)) + 2 * ch (neighbour b r c (- 1) 0) + ch (neighbour b r c (- 1) 1)
      + 2 * ch (neighbour b r c 0 (- 1)) + 4 * ch (neighbour b r c 0 0) + 2 * ch (neighbour b r c 0 1)
      + ch (neighbour b r c 1 (- 1)) + 2 * ch (neighbour b r c 1 0) + ch (neighbour b r c 1 1)) / 16"
  by (simp add: blur_sample_def kernel3_def)

lemma blur_sample_const:
  assumes "\<And>dr dc. dr \<in> {- 1, 0, 1} \<Longrightarrow> dc \<in> {- 1, 0, 1} \<Longrightarrow> ch (neighbour b r c dr dc) = x"
  shows "blur_sample ch b r c = x"
  by (simp add: blur_sample_terms assms)

lemma blur_sample_bounds:
  assumes "\<And>dr dc. dr \<in> {- 1, 0, 1} \<Longrightarrow> dc \<in> {- 1, 0, 1} \<Longrightarrow> 0 \<le> ch (neighbour b r c dr dc) \<and> ch (neighbour b r c dr dc) \<le> 1"
  shows "0 \<le> blur_sample ch b r c \<and> blur_sample ch b r c \<le> 1"
proof -
  have a: "0 \<le> ch (neighbour b r c (- 1) (- 1)) \<and> ch (neighbour b r c (- 1) (- 1)) \<le> 1" by (rule assms) simp_all
  have b: "0 \<le> ch (neighbour b r c (- 1) 0) \<and> ch (neighbour b r c (- 1) 0) \<le> 1" by (rule assms) simp_all
  have c: "0 \<le> ch (neighbour b r c (- 1) 1) \<and> ch (neighbour b r c (- 1) 1) \<le> 1" by (rule assms) simp_all
  have d: "0 \<le> ch (neighbour b r c 0 (- 1)) \<and> ch (neighbour b r c 0 (- 1)) \<le> 1" by (rule assms) simp_all
  have e: "0 \<le> ch (neighbour b r c 0 0) \<and> ch (neighbour b r c 0 0) \<le> 1" by (rule assms) simp_all
  have f: "0 \<le> ch (neighbour b r c 0 1) \<and> ch (neighbour b r c 0 1) \<le> 1" by (rule assms) simp_all
  have g: "0 \<le> ch (neighbour b r c 1 (- 1)) \<and> ch (neighbour b r c 1 (- 1)) \<le> 1" by (rule assms) simp_all
  have h: "0 \<le> ch (neighbour b r c 1 0) \<and> ch (neighbour b r c 1 0) \<le> 1" by (rule assms) simp_all
  have i: "0 \<le> ch (neighbour b r c 1 1) \<and> ch (neighbour b r c 1 1) \<le> 1" by (rule assms) simp_all
  show ?thesis unfolding blur_sample_terms using a b c d e f g h i by simp
qed

lemma neighbour_in_range:
  assumes "rect w b" "r < length b" "c < w" "dr \<in> {- 1, 0, 1}" "dc \<in> {- 1, 0, 1}"
  shows "\<exists>r' c'. r' < length b \<and> c' < w \<and> neighbour b r c dr dc = b ! r' ! c'"
proof -
  have len: "length (b ! r) = w" using assms(1,2) by (simp add: rect_def list_all_length)
  have r': "reflect101 (length b) (int r + dr) < length b"
    using assms(2,4) by (intro reflect101_less) auto
  have c': "reflect101 w (int c + dc) < w"
    using assms(3,5) by (intro reflect101_less) auto
  show ?thesis unfolding neighbour_def len using r' c' by blast
qed

lemma nested_eqI:
  assumes "length a = length b"
    and "\<And>r. r < length b \<Longrightarrow> length (a ! r) = length (b ! r)"
    and "\<And>r c. r < length b \<Longrightarrow> c < length (b ! r) \<Longrightarrow> a ! r ! c = b ! r ! c"
  shows "a = b"
  using assms by (intro nth_equalityI) auto

lemma in_unit_nth:
  "in_unit b \<longleftrightarrow> (\<forall>r<length b. \<forall>c<length (b ! r). unit_px (b ! r ! c))"
  by (simp add: in_unit_def list_all_length)

lemma rect_nth: "rect w b \<longleftrightarrow> (\<forall>r<length b. length (b ! r) = w)"
  by (simp add: rect_def list_all_length)

lemma rect_map_rc [simp]: "rect w (map_rc f b) = rect w b"
  by (simp add: rect_nth)

subsection \<open>Shapes\<close>

lemma length_assign_columns [simp]: "length (assign_columns lo hi cur ev) = length cur"
  by (simp add: assign_columns_def)

lemma length_assign_columns_nth [simp]:
  "r < length cur \<Longrightarrow> length (assign_columns lo hi cur ev ! r) = length (cur ! r)"
  by (simp add: assign_columns_def)

lemma assign_columns_nth:
  "r < length cur \<Longrightarrow> j < length (cur ! r) \<Longrightarrow>
   assign_columns lo hi cur ev ! r ! j = (if in_slice (length (cur ! r)) lo hi j then ev ! r ! j else cur ! r ! j)"
  by (simp add: assign_columns_def)

lemma length_overwrite [simp]: "length (overwrite c T i cur ev) = length cur"
  by (simp add: overwrite_def Let_def)

lemma length_overwrite_nth [simp]:
  "r < length cur \<Longrightarrow> length (overwrite c T i cur ev ! r) = length (cur ! r)"
  by (simp add: overwrite_def Let_def)

lemma overwrite_nth:
  assumes "r < length cur" "j < length (cur ! r)"
  shows "overwrite c T i cur ev ! r ! j =
     (if overwrite_region (length (cur ! r)) (snd (output_size c)) T i j then ev ! r ! j else cur ! r ! j)"
  using assms by (simp add: overwrite_def overwrite_region_def Let_def assign_columns_nth)

lemma length_GaussianBlur [simp]: "length (GaussianBlur b) = length b"
  by (simp add: GaussianBlur_def)

lemma length_GaussianBlur_nth [simp]: "r < length b \<Longrightarrow> length (GaussianBlur b ! r) = length (b ! r)"
  by (simp add: GaussianBlur_def)

lemma length_add_noise [simp]: "length (add_noise s z b) = length b"
  by (simp add: add_noise_def)

lemma length_add_noise_nth [simp]: "r < length b \<Longrightarrow> length (add_noise s z b ! r) = length (b ! r)"
  by (simp add: add_noise_def)

lemma length_evolve_frame [simp]: "length (evolve_frame c z b p) = length b"
  by (simp add: evolve_frame_def)

lemma length_evolve_frame_nth [simp]:
  "r < length b \<Longrightarrow> length (evolve_frame c z b p ! r) = length (b ! r)"
  by (simp add: evolve_frame_def)

lemma rect_evolve_frame: "rect w (evolve_frame c z b p) = rect w b"
  by (simp add: rect_nth)

lemma rect_overwrite: "rect w (overwrite c T i cur ev) = rect w cur"
  by (simp add: rect_nth)

subsection \<open>The sample domain\<close>

lemma clip_unit: "0 \<le> clip x 0 1 \<and> clip x 0 1 \<le> 1"
  by (simp add: clip_def)

lemma clip_id: "0 \<le> x \<Longrightarrow> x \<le> 1 \<Longrightarrow> clip x 0 1 = x"
  by (simp add: clip_def)

lemma unit_px_clip: "unit_px (map_px (\<lambda>e. clip e 0 1) p)"
  by (cases p) (simp add: clip_unit)

lemma in_unit_add_noise: "in_unit (add_noise s z b)"
  by (simp add: in_unit_nth add_noise_def unit_px_clip)

lemma in_unit_GaussianBlur:
  assumes u: "in_unit b" and "rect w b"
  shows "in_unit (GaussianBlur b)"
proof -
  have px: "unit_px (blur_sample fst b r c, blur_sample (fst \<circ> snd) b r c, blur_sample (snd \<circ> snd) b r c)"
    if r: "r < length b" and c: "c < length (b ! r)" for r c
  proof -
    have cw: "c < w" using assms(2) r c by (simp add: rect_nth)
    have nb: "unit_px (neighbour b r c dr dc)" if dr: "dr \<in> {- 1, 0, 1}" and dc: "dc \<in> {- 1, 0, 1}" for dr dc
    proof -
      obtain r' c' where "r' < length b" "c' < w" "neighbour b r c dr dc = b ! r' ! c'"
        using neighbour_in_range [OF assms(2) r cw dr dc] by blast
      moreover have "length (b ! r') = w" using assms(2) \<open>r' < length b\<close> by (simp add: rect_nth)
      ultimately show ?thesis using u by (simp add: in_unit_nth)
    qed
    have "0 \<le> blur_sample fst b r c \<and> blur_sample fst b r c \<le> 1"
    proof (rule blur_sample_bounds)
      fix dr dc :: int assume "dr \<in> {- 1, 0, 1}" "dc \<in> {- 1, 0, 1}"
      then have "unit_px (neighbour b r c dr dc)" by (rule nb)
      then show "0 \<le> fst (neighbour b r c dr dc) \<and> fst (neighbour b r c dr dc) \<le> 1"
        by (cases "neighbour b r c dr dc") simp
    qed
    moreover have "0 \<le> blur_sample (fst \<circ> snd) b r c \<and> blur_sample (fst \<circ> snd) b r c \<le> 1"
    proof (rule blur_sample_bounds)
      fix dr dc :: int assume "dr \<in> {- 1, 0, 1}" "dc \<in> {- 1, 0, 1}"
      then have "unit_px (neighbour b r c dr dc)" by (rule nb)
      then show "0 \<le> (fst \<circ> snd) (neighbour b r c dr dc) \<and> (fst \<circ> snd) (neighbour b r c dr dc) \<le> 1"
        by (cases "neighbour b r c dr dc") simp
    qed
    moreover have "0 \<le> blur_sample (snd \<circ> snd) b r c \<and> blur_sample (snd \<circ> snd) b r c \<le> 1"
    proof (rule blur_sample_bounds)
      fix dr dc :: int assume "dr \<in> {- 1, 0, 1}" "dc \<in> {- 1, 0, 1}"
      then have "unit_px (neighbour b r c dr dc)" by (rule nb)
      then show "0 \<le> (snd \<circ> snd) (neighbour b r c dr dc) \<and> (snd \<circ> snd) (neighbour b r c dr dc) \<le> 1"
        by (cases "neighbour b r c dr dc") simp
    qed
    ultimately show ?thesis by simp
  qed
  show ?thesis unfolding in_unit_nth
  proof (intro allI impI)
    fix r c assume "r < length (GaussianBlur b)" and "c < length (GaussianBlur b ! r)"
    then have r: "r < length b" and c: "c < length (b ! r)" by simp_all
    have "GaussianBlur b ! r ! c =
        (blur_sample fst b r c, blur_sample (fst \<circ> snd) b r c, blur_sample (snd \<circ> snd) b r c)"
      using r c by (simp add: GaussianBlur_def)
    with px [OF r c] show "unit_px (GaussianBlur b ! r ! c)" by (simp only:)
  qed
qed

lemma in_unit_evolve_frame:
  assumes "rect w b"
  shows "in_unit (evolve_frame c z b p)"
  unfolding evolve_frame_def
proof (rule in_unit_GaussianBlur)
  show "in_unit (add_noise (evolution_strength c) z (map (map (recolor p)) b))"
    by (rule in_unit_add_noise)
  show "rect w (add_noise (evolution_strength c) z (map (map (recolor p)) b))"
    using assms by (simp add: rect_nth)
qed

lemma in_unit_overwrite:
  assumes "in_unit cur" "in_unit ev" "length ev = length cur"
    and "\<And>r. r < length cur \<Longrightarrow> length (ev ! r) = length (cur ! r)"
  shows "in_unit (overwrite c T i cur ev)"
  using assms by (simp add: in_unit_nth overwrite_nth)

subsection \<open>The loop\<close>

lemma run_steps_0: "run_steps c z img 0 = \<lparr>current_frame = initial_frame img, frames = []\<rparr>"
  by (simp add: run_steps_def)

lemma run_steps_Suc:
  "run_steps c z img (Suc n) = loop_body c z (total_frames c) n (run_steps c z img n)"
  by (simp add: run_steps_def)

lemma current_frame_loop_body:
  "current_frame (loop_body c z T i st) =
     overwrite c T i (current_frame st) (evolve_frame c (z i) (current_frame st) (real i / of_int T))"
  by (simp add: loop_body_def Let_def)

lemma frames_loop_body:
  "frames (loop_body c z T i st) = frames st @ [frame_to_save (current_frame (loop_body c z T i st))]"
  by (simp add: loop_body_def Let_def)

lemma length_frames_run_steps: "length (frames (run_steps c z img n)) = n"
  by (induction n) (simp_all add: run_steps_0 run_steps_Suc frames_loop_body)

lemma frames_run_steps_take:
  "k \<le> n \<Longrightarrow> frames (run_steps c z img k) = take k (frames (run_steps c z img n))"
proof (induction n)
  case 0
  then show ?case by (simp add: run_steps_0)
next
  case (Suc n)
  show ?case
  proof (cases "k = Suc n")
    case True
    then show ?thesis by (simp add: length_frames_run_steps)
  next
    case False
    with Suc.prems have "k \<le> n" by simp
    then show ?thesis
      using Suc.IH by (simp add: run_steps_Suc frames_loop_body length_frames_run_steps)
  qed
qed

lemma frames_run_steps_nth:
  assumes "i < n"
  shows "frames (run_steps c z img n) ! i = frame_to_save (current_frame (run_steps c z img (Suc i)))"
proof -
  have "frames (run_steps c z img (Suc i)) = take (Suc i) (frames (run_steps c z img n))"
    using assms by (intro frames_run_steps_take) simp
  then have "frames (run_steps c z img n) ! i = frames (run_steps c z img (Suc i)) ! i"
    by simp
  also have "\<dots> = frame_to_save (current_frame (run_steps c z img (Suc i)))"
    by (simp add: run_steps_Suc frames_loop_body nth_append length_frames_run_steps)
  finally show ?thesis .
qed

lemma rect_initial_frame [simp]: "rect w (initial_frame img) = rect w img"
  by (simp add: rect_nth initial_frame_def)

lemma byte_value_range: "0 \<le> byte_value w \<and> byte_value w \<le> 255"
proof -
  have "unat w < 256" using unsigned_less [of w] by simp
  then show ?thesis unfolding byte_value_def by linarith
qed

lemma in_unit_initial_frame: "in_unit (initial_frame img)"
proof -
  have "unit_px (map_px (\<lambda>w. byte_value w / 255) p)" for p :: "8 word pixel"
    using byte_value_range by (cases p) simp
  then show ?thesis by (simp add: in_unit_def initial_frame_def list_all_iff)
qed

lemma rect_run_steps:
  "rect w (current_frame (run_steps c z img n)) = rect w img"
  by (induction n) (simp_all add: run_steps_0 run_steps_Suc current_frame_loop_body rect_overwrite)

lemma in_unit_run_steps:
  assumes "rect w img"
  shows "in_unit (current_frame (run_steps c z img n))"
proof (induction n)
  case 0
  show ?case by (simp add: run_steps_0 in_unit_initial_frame)
next
  case (Suc n)
  have r: "rect w (current_frame (run_steps c z img n))" using assms by (simp add: rect_run_steps)
  show ?case unfolding run_steps_Suc current_frame_loop_body
    by (rule in_unit_overwrite) (simp_all add: Suc in_unit_evolve_frame [OF r])
qed

lemma quantize_unit:
  assumes "0 \<le> x" "x \<le> 1"
  shows "unat (to_uint8 (x * 255)) = nat \<lfloor>x * 255\<rfloor>" and "unat (to_uint8 (x * 255)) \<le> 255"
proof -
  have 0: "0 \<le> x * 255" using assms by simp
  then have f0: "0 \<le> \<lfloor>x * 255\<rfloor>" by simp
  have "x * 255 \<le> 255" using assms by simp
  then have "\<lfloor>x * 255\<rfloor> \<le> \<lfloor>255 :: real\<rfloor>" by (rule floor_mono)
  then have f1: "\<lfloor>x * 255\<rfloor> \<le> 255" by simp
  have "unat (to_uint8 (x * 255)) = nat (\<lfloor>x * 255\<rfloor> mod 256)"
    using 0 by (simp add: to_uint8_def py_int_def unat_eq_nat_uint uint_word_of_int)
  also have "\<dots> = nat \<lfloor>x * 255\<rfloor>" using f0 f1 by simp
  finally show "unat (to_uint8 (x * 255)) = nat \<lfloor>x * 255\<rfloor>" .
  then show "unat (to_uint8 (x * 255)) \<le> 255" using f0 f1 by linarith
qed

lemma overwrite_region_nat:
  assumes t: "0 < t" and j: "j < S"
  shows "overwrite_region S S (int t) i j
     \<longleftrightarrow> (let p = (i * S) div t; w = max 1 ((2 * S) div t)
          in if p + w > S then p \<le> j \<or> j < p + w - S else p \<le> j \<and> j < p + w)"
  using j
  by (auto simp add: overwrite_region_def overwrite_position_div [OF t] overwrite_width_div [OF t]
      in_slice_def slice_index_def Let_def simp flip: of_nat_add split: if_splits)

lemma total_frames_init: "total_frames init = 300"
  by (simp add: total_frames_def init_def py_int_def)

subsection \<open>The transform\<close>

lemma py_mod_range:
  assumes "0 < m"
  shows "0 \<le> py_mod x m \<and> py_mod x m < m"
proof -
  have "of_int \<lfloor>x / m\<rfloor> * m \<le> x" using assms by (rule floor_divide_lower)
  moreover have "x < (of_int \<lfloor>x / m\<rfloor> + 1) * m" using assms by (rule floor_divide_upper)
  then have "x < of_int \<lfloor>x / m\<rfloor> * m + m" by (simp add: algebra_simps)
  ultimately show ?thesis by (simp add: py_mod_def mult.commute)
qed

lemma recolor_grey: "recolor p (g, g, g) = (g, g, g)"
  by (simp add: recolor_def Let_def clip_def)

lemma unit_hsv2rgb:
  assumes s: "0 \<le> s" "s \<le> 1" and v: "0 \<le> v" "v \<le> 1"
  shows "unit_px (hsv2rgb (h, s, v))"
proof -
  define h6 where "h6 = py_mod (h / 60) 6"
  define f where "f = h6 - of_int \<lfloor>h6\<rfloor>"
  have f: "0 \<le> f" "f \<le> 1" unfolding f_def by linarith+
  have fac: "0 \<le> v * (1 - s * e) \<and> v * (1 - s * e) \<le> 1" if "0 \<le> e" "e \<le> 1" for e
  proof -
    have "0 \<le> s * e" using s that by simp
    moreover have "s * e \<le> 1" using s that by (simp add: mult_le_one)
    ultimately have "0 \<le> 1 - s * e" "1 - s * e \<le> 1" by simp_all
    then show ?thesis using v by (simp add: mult_le_one)
  qed
  have p: "0 \<le> v * (1 - s) \<and> v * (1 - s) \<le> 1" using fac [of 1] by simp
  have q: "0 \<le> v * (1 - s * f) \<and> v * (1 - s * f) \<le> 1" using fac [of f] f by simp
  have t: "0 \<le> v * (1 - s * (1 - f)) \<and> v * (1 - s * (1 - f)) \<le> 1" using fac [of "1 - f"] f by simp
  have "unit_px (x, y, w)" if "x \<in> {v, v * (1 - s), v * (1 - s * f), v * (1 - s * (1 - f))}"
    and "y \<in> {v, v * (1 - s), v * (1 - s * f), v * (1 - s * (1 - f))}"
    and "w \<in> {v, v * (1 - s), v * (1 - s * f), v * (1 - s * (1 - f))}" for x y w
    using that p q t v by auto
  then show ?thesis
    unfolding hsv2rgb.simps Let_def h6_def [symmetric] f_def [symmetric]
    by (simp only: split: if_split) blast
qed

lemma unit_recolor:
  assumes "unit_px p"
  shows "unit_px (recolor q p)"
proof -
  obtain r g b where p: "p = (r, g, b)" by (cases p)
  obtain h s v where hsv: "rgb2hsv p = (h, s, v)" by (cases "rgb2hsv p")
  have "v = max r (max g b)" using hsv unfolding p by (simp add: Let_def)
  then have v: "0 \<le> v" "v \<le> 1" using assms unfolding p by auto
  have "recolor q p = hsv2rgb (py_mod (h + hue_shift q * 180) 180, clip (s * saturation_factor q) 0 1, v)"
    by (simp add: recolor_def hsv)
  moreover have "0 \<le> clip (s * saturation_factor q) 0 1" "clip (s * saturation_factor q) 0 1 \<le> 1"
    by (simp_all add: clip_unit)
  ultimately show ?thesis using v by (simp only: unit_hsv2rgb)
qed

lemma add_noise_zero:
  assumes "in_unit b"
  shows "add_noise 0 z b = b"
proof (rule nested_eqI)
  fix r c assume r: "r < length b" and c: "c < length (b ! r)"
  then have u: "unit_px (b ! r ! c)" using assms by (simp add: in_unit_nth)
  obtain x y w where px: "b ! r ! c = (x, y, w)" by (cases "b ! r ! c")
  obtain n1 n2 n3 where n: "z r c = (n1, n2, n3)" by (cases "z r c")
  show "add_noise 0 z b ! r ! c = b ! r ! c"
    using r c u by (simp add: add_noise_def px n clip_id)
qed simp_all

lemma GaussianBlur_uniform:
  "GaussianBlur (replicate h (replicate w x)) = replicate h (replicate w x)"
proof (rule nested_eqI)
  let ?b = "replicate h (replicate w x)"
  fix r c assume "r < length ?b" and "c < length (?b ! r)"
  then have r: "r < h" and c: "c < w" by simp_all
  have nb: "neighbour ?b r c dr dc = x" if dr: "dr \<in> {- 1, 0, 1}" and dc: "dc \<in> {- 1, 0, 1}" for dr dc
  proof -
    have "reflect101 h (int r + dr) < h" using r dr by (intro reflect101_less) auto
    moreover have "reflect101 w (int c + dc) < w" using c dc by (intro reflect101_less) auto
    ultimately show ?thesis using r by (simp add: neighbour_def)
  qed
  have "blur_sample ch ?b r c = ch x" for ch
    by (rule blur_sample_const) (simp add: nb)
  then show "GaussianBlur ?b ! r ! c = ?b ! r ! c"
    using r c by (simp add: GaussianBlur_def)
qed simp_all

lemma evolve_frame_noiseless:
  assumes "evolution_strength c = 0" and "in_unit b"
  shows "evolve_frame c z b p = GaussianBlur (map (map (recolor p)) b)"
proof -
  have "in_unit (map (map (recolor p)) b)"
    using assms(2) by (simp add: in_unit_def list_all_iff unit_recolor)
  then show ?thesis by (simp add: evolve_frame_def assms(1) add_noise_zero)
qed

lemma evolve_frame_grey:
  assumes "evolution_strength c = 0" and "0 \<le> g" "g \<le> 1"
  shows "evolve_frame c z (replicate h (replicate w (g, g, g))) p = replicate h (replicate w (g, g, g))"
proof -
  have "in_unit (replicate h (replicate w (g, g, g)))"
    using assms(2,3) by (simp add: in_unit_def list_all_iff)
  then show ?thesis
    by (simp add: evolve_frame_noiseless [OF assms(1)] recolor_grey GaussianBlur_uniform)
qed


lemma overwrite_same: "overwrite c T i b b = b"
  by (rule nested_eqI) (simp_all add: overwrite_nth)

lemma GaussianBlur_stripes:
  "GaussianBlur [[(0, 0, 0), (1, 1, 1)], [(0, 0, 0), (1, 1, 1)]]
     = [[(1/2, 1/2, 1/2), (1/2, 1/2, 1/2)], [(1/2, 1/2, 1/2), (1/2, 1/2, 1/2)]]"
  by (simp add: GaussianBlur_def map_rc_def blur_sample_terms neighbour_def reflect101_def upt_rec)

subsection \<open>One step and a concrete run\<close>

lemma overwrite_position_nonneg: "0 < T \<Longrightarrow> 0 \<le> overwrite_position i T S"
  by (simp add: overwrite_position_def py_int_def)

lemma wrap_region:
  assumes T: "0 < T" and j: "j < S"
    and wrap: "int S < overwrite_position i T S + overwrite_width T S"
  shows "overwrite_region S S T i j \<longleftrightarrow>
     (overwrite_position i T S \<le> int j \<or> int j < overwrite_position i T S + overwrite_width T S - int S)"
  using j wrap overwrite_position_nonneg [OF T, of i S]
  by (auto simp add: overwrite_region_def in_slice_def slice_index_def Let_def)

lemma frame_to_save_nth:
  "r < length b \<Longrightarrow> j < length (b ! r) \<Longrightarrow>
   frame_to_save b ! r ! j = map_px (\<lambda>x. to_uint8 (x * 255)) (b ! r ! j)"
  by (simp add: frame_to_save_def)

lemma last_frames_loop_body:
  "last (frames (loop_body c z T i st)) = frame_to_save (current_frame (loop_body c z T i st))"
  by (simp add: frames_loop_body)

lemma total_frames_small_run: "total_frames small_run = 1"
  by (simp add: total_frames_def small_run_def py_int_def)

lemma initial_frame_stripes: "initial_frame stripes = [[(0, 0, 0), (1, 1, 1)], [(0, 0, 0), (1, 1, 1)]]"
  by (simp add: initial_frame_def stripes_def byte_value_def)

lemma evolve_stripes:
  "evolve_frame small_run z (initial_frame stripes) p = [[(1 / 2, 1 / 2, 1 / 2), (1 / 2, 1 / 2, 1 / 2)], [(1 / 2, 1 / 2, 1 / 2), (1 / 2, 1 / 2, 1 / 2)]]"
proof -
  have s0: "evolution_strength small_run = 0" by (simp add: small_run_def)
  have "in_unit (initial_frame stripes)" by (rule in_unit_initial_frame)
  then have "evolve_frame small_run z (initial_frame stripes) p
      = GaussianBlur (map (map (recolor p)) (initial_frame stripes))"
    by (rule evolve_frame_noiseless [OF s0])
  also have "map (map (recolor p)) (initial_frame stripes) = [[(0, 0, 0), (1, 1, 1)], [(0, 0, 0), (1, 1, 1)]]"
    by (simp add: initial_frame_stripes recolor_grey)
  finally show ?thesis by (simp add: GaussianBlur_stripes)
qed

lemma small_run_wraps:
  "overwrite_position 0 1 2 = 0" "overwrite_width 1 2 = 4"
  by (simp_all add: overwrite_position_def overwrite_width_def py_int_def)

lemma overwrite_small_run:
  assumes "length cur = 2" "rect 2 cur"
  shows "overwrite small_run 1 0 cur ev = map_rc (\<lambda>r j x. ev ! r ! j) cur"
proof (rule nested_eqI)
  fix r j assume r: "r < length (map_rc (\<lambda>r j x. ev ! r ! j) cur)"
    and j: "j < length (map_rc (\<lambda>r j x. ev ! r ! j) cur ! r)"
  then have r': "r < length cur" and j': "j < length (cur ! r)" by simp_all
  have len: "length (cur ! r) = 2" using assms(2) r' by (simp add: rect_nth)
  have "overwrite_region 2 2 1 0 j"
    using j' len by (simp add: overwrite_region_def small_run_wraps in_slice_def slice_index_def)
  then show "overwrite small_run 1 0 cur ev ! r ! j = map_rc (\<lambda>r j x. ev ! r ! j) cur ! r ! j"
    using r' j' by (simp add: overwrite_nth len small_run_def)
qed simp_all

lemma small_run_steps:
  "run_steps small_run z stripes (Suc 0) =
     \<lparr>current_frame = [[(1 / 2, 1 / 2, 1 / 2), (1 / 2, 1 / 2, 1 / 2)], [(1 / 2, 1 / 2, 1 / 2), (1 / 2, 1 / 2, 1 / 2)]],
      frames = [[[(127, 127, 127), (127, 127, 127)], [(127, 127, 127), (127, 127, 127)]]]\<rparr>"
proof -
  have ow: "overwrite small_run 1 0 (initial_frame stripes) [[(1 / 2, 1 / 2, 1 / 2), (1 / 2, 1 / 2, 1 / 2)], [(1 / 2, 1 / 2, 1 / 2), (1 / 2, 1 / 2, 1 / 2)]]
      = [[(1 / 2, 1 / 2, 1 / 2), (1 / 2, 1 / 2, 1 / 2)], [(1 / 2, 1 / 2, 1 / 2), (1 / 2, 1 / 2, 1 / 2)]]"
    by (subst overwrite_small_run)
      (simp_all add: initial_frame_stripes rect_def map_rc_def upt_rec)
  have q: "to_uint8 (1 / 2 * 255) = 127" by (simp add: to_uint8_def py_int_def)
  have fs: "frame_to_save [[(1 / 2, 1 / 2, 1 / 2), (1 / 2, 1 / 2, 1 / 2)], [(1 / 2, 1 / 2, 1 / 2), (1 / 2, 1 / 2, 1 / 2)]] = [[(127, 127, 127), (127, 127, 127)], [(127, 127, 127), (127, 127, 127)]]"
    using q by (simp add: frame_to_save_def)
  show ?thesis
    by (simp add: run_steps_Suc run_steps_0 loop_body_def Let_def total_frames_small_run
        evolve_stripes ow fs)
qed


subsection \<open>Quantisation\<close>

lemma quantize_differs:
  assumes "0 < x" "x \<le> 1"
  shows "byte_value (to_uint8 (x * 255)) \<noteq> x"
proof
  assume eq: "byte_value (to_uint8 (x * 255)) = x"
  define n where "n = unat (to_uint8 (x * 255))"
  have x: "x = real n" using eq by (simp add: byte_value_def n_def)
  have "n = nat \<lfloor>x * 255\<rfloor>"
    unfolding n_def using assms by (intro quantize_unit) simp_all
  also have "\<dots> = nat \<lfloor>real (n * 255)\<rfloor>" by (simp add: x)
  also have "\<dots> = n * 255" by (simp only: floor_of_nat nat_int)
  finally have "n = 0" by simp
  with x assms(1) show False by simp
qed

lemma unit_px_nth:
  "in_unit b \<Longrightarrow> r < length b \<Longrightarrow> j < length (b ! r) \<Longrightarrow> unit_px (b ! r ! j)"
  by (simp add: in_unit_nth)

lemma length_run_steps [simp]: "length (current_frame (run_steps c z img n)) = length img"
  by (induction n) (simp_all add: run_steps_0 run_steps_Suc current_frame_loop_body initial_frame_def)

lemma quantize_px_unit:
  assumes "unit_px p"
  shows "map_px unat (map_px (\<lambda>x. to_uint8 (x * 255)) p) = map_px (\<lambda>x. nat \<lfloor>x * 255\<rfloor>) p"
  using assms by (cases p) (simp add: quantize_unit)

lemma quantize_px_differs:
  assumes "unit_px p" "p \<noteq> (0, 0, 0)"
  shows "map_px byte_value (map_px (\<lambda>x. to_uint8 (x * 255)) p) \<noteq> p"
proof -
  obtain x y w where p: "p = (x, y, w)" by (cases p)
  from assms have "0 < x \<or> 0 < y \<or> 0 < w" unfolding p by auto
  moreover have "byte_value (to_uint8 (x * 255)) \<noteq> x" if "0 < x" 
    using that assms(1) unfolding p by (intro quantize_differs) simp_all
  moreover have "byte_value (to_uint8 (y * 255)) \<noteq> y" if "0 < y" 
    using that assms(1) unfolding p by (intro quantize_differs) simp_all
  moreover have "byte_value (to_uint8 (w * 255)) \<noteq> w" if "0 < w" 
    using that assms(1) unfolding p by (intro quantize_differs) simp_all
  ultimately show ?thesis unfolding p by auto
qed

subsection \<open>Frames as numbers, noise, and the empty run\<close>

lemma byte_value_quantize:
  assumes "0 \<le> x" "x \<le> 1"
  shows "byte_value (to_uint8 (x * 255)) = of_int \<lfloor>x * 255\<rfloor>"
proof -
  have "0 \<le> \<lfloor>x * 255\<rfloor>" using assms by simp
  then show ?thesis
    using quantize_unit(1) [OF assms] by (simp add: byte_value_def del: of_nat_unat)
qed

lemma sample_values_frame_to_save:
  assumes "in_unit b"
  shows "sample_values (frame_to_save b) = map (map (map_px (\<lambda>x. of_int \<lfloor>x * 255\<rfloor>))) b"
proof -
  have "map_px byte_value (map_px (\<lambda>x. to_uint8 (x * 255)) p) = map_px (\<lambda>x. of_int \<lfloor>x * 255\<rfloor>) p"
    if "unit_px p" for p
    using that by (cases p) (simp add: byte_value_quantize)
  then show ?thesis
    using assms by (simp add: sample_values_def frame_to_save_def in_unit_def list_all_iff)
qed

lemma in_unit_sample_values: "in_unit (map (map (map_px (\<lambda>x. x / 255))) (sample_values f))"
proof -
  have "unit_px (map_px (\<lambda>x. x / 255) (map_px byte_value p))" for p
    using byte_value_range by (cases p) simp
  then show ?thesis by (simp add: in_unit_def sample_values_def list_all_iff)
qed

lemma total_frames_zero_duration: "total_frames (init\<lparr>duration := 0\<rparr>) = 0"
  by (simp add: total_frames_def init_def py_int_def)

subsection \<open>Colours and small configurations\<close>

lemma py_mod_240: "py_mod 240 180 = 60"
  by (simp add: py_mod_def)

lemma hue_shift_0: "hue_shift 0 = 0"
  by (simp add: hue_shift_def)

lemma saturation_factor_0: "saturation_factor 0 = 1"
  by (simp add: saturation_factor_def)

lemma recolor_blue: "recolor 0 (0, 0, 1) = (1, 1, 0)"
  by (simp add: recolor_def Let_def hue_shift_0 saturation_factor_0 py_mod_240 clip_def py_mod_def)

lemma evolve_stripes_any:
  assumes "evolution_strength c = 0"
  shows "evolve_frame c z (initial_frame stripes) p
     = [[(1 / 2, 1 / 2, 1 / 2), (1 / 2, 1 / 2, 1 / 2)], [(1 / 2, 1 / 2, 1 / 2), (1 / 2, 1 / 2, 1 / 2)]]"
proof -
  have "in_unit (initial_frame stripes)" by (rule in_unit_initial_frame)
  then have "evolve_frame c z (initial_frame stripes) p
      = GaussianBlur (map (map (recolor p)) (initial_frame stripes))"
    by (rule evolve_frame_noiseless [OF assms])
  also have "map (map (recolor p)) (initial_frame stripes) = [[(0, 0, 0), (1, 1, 1)], [(0, 0, 0), (1, 1, 1)]]"
    by (simp add: initial_frame_stripes recolor_grey)
  finally show ?thesis by (simp add: GaussianBlur_stripes)
qed

lemma overwrite_width_ge1: "1 \<le> overwrite_width T S"
  by (simp add: overwrite_width_def)

lemma total_frames_wide: "total_frames wide = 4"
  by (simp add: total_frames_def wide_def py_int_def)

subsection \<open>A step that does not wrap, and the sine at quarter turns\<close>

lemma nowrap_region:
  assumes T: "0 < T" and j: "j < S"
    and nowrap: "\<not> int S < overwrite_position i T S + overwrite_width T S"
  shows "overwrite_region S S T i j \<longleftrightarrow>
     (overwrite_position i T S \<le> int j \<and> int j < overwrite_position i T S + overwrite_width T S)"
  using j nowrap overwrite_position_nonneg [OF T, of i S] overwrite_width_ge1 [of T S]
  by (auto simp add: overwrite_region_def in_slice_def slice_index_def Let_def)

lemma sin_half_turn: "sin (1 / 2 * 2 * pi) = 0" by simp

lemma sin_quarter_turn: "sin (1 / 4 * 2 * pi) = 1"
proof -
  have "1 / 4 * 2 * pi = pi / 2" by simp
  then show ?thesis by (simp only: sin_pi_half)
qed

lemma sin_three_quarter_turn: "sin (3 / 4 * 2 * pi) = - 1"
proof -
  have "3 / 4 * 2 * pi = 3 / 2 * pi" by simp
  then show ?thesis by (simp only: sin_3over2_pi)
qed

subsection \<open>The empty run and the wide frame\<close>

lemma generate_frames_empty: "total_frames c < 1 \<Longrightarrow> generate_frames c z img = []"
  by (simp add: generate_frames_def run_steps_0)

lemma write_clip_empty: "write_clip encode [] rate path = Some IndexError"
  by (simp add: write_clip_def ImageSequenceClip_def)

lemma wide_region:
  assumes "i < 4" and "2 \<le> j"
  shows "\<not> overwrite_region 4 2 4 i j"
proof -
  have p: "overwrite_position i 4 2 = int ((i * 2) div 4)"
    using overwrite_position_div [of 4 i 2] by simp
  have w: "overwrite_width 4 2 = 1"
    by (simp add: overwrite_width_def py_int_def)
  have "(i * 2) div 4 \<le> 1" using assms(1) by simp
  then show ?thesis
    using assms(2) by (auto simp add: overwrite_region_def p w in_slice_def slice_index_def)
qed

lemma wide_columns_kept:
  assumes "rect 4 img" and "r < length img" and "2 \<le> j" and "j < 4" and "n \<le> 4"
  shows "current_frame (run_steps wide z img n) ! r ! j = initial_frame img ! r ! j"
  using assms(5)
proof (induction n)
  case 0
  show ?case by (simp add: run_steps_0)
next
  case (Suc n)
  then have n: "n < 4" and IH: "current_frame (run_steps wide z img n) ! r ! j = initial_frame img ! r ! j"
    by simp_all
  let ?cur = "current_frame (run_steps wide z img n)"
  have r: "r < length ?cur" using assms(2) by simp
  have "rect 4 ?cur" using assms(1) by (simp add: rect_run_steps)
  then have len: "length (?cur ! r) = 4" using r by (simp add: rect_nth)
  have S: "snd (output_size wide) = 2" by (simp add: wide_def)
  have "current_frame (run_steps wide z img (Suc n)) ! r ! j = ?cur ! r ! j"
    using r assms(4) wide_region [OF n assms(3)]
    by (simp add: run_steps_Suc current_frame_loop_body overwrite_nth len S total_frames_wide)
  with IH show ?case by simp
qed


section \<open>The claims\<close>

text \<open>
  C3. For positive \<open>fps\<close> and positive \<open>duration\<close> (and a strength that is not negative),
  \<open>total_frames\<close> is the floor of \<open>fps * duration\<close>, the loop emits exactly
  \<open>total_frames\<close> frames, and they are appended in the order of the steps: frame \<open>i\<close> is
  the frame saved by step \<open>i\<close>, and after step \<open>i\<close> the list holds the first \<open>i + 1\<close>
  frames of the final list.
\<close>

theorem frames_in_order:
  assumes "0 < fps c" and "0 < duration c" and "0 \<le> evolution_strength c"
  shows "total_frames c = \<lfloor>of_int (fps c) * duration c\<rfloor> \<and>
         length (generate_frames c z img) = nat (total_frames c) \<and>
         (\<forall>i<nat (total_frames c).
            generate_frames c z img ! i = frame_to_save (current_frame (run_steps c z img (Suc i))) \<and>
            frames (run_steps c z img (Suc i)) = take (Suc i) (generate_frames c z img))"
proof (intro conjI allI impI)
  have "0 \<le> of_int (fps c) * duration c" using assms(1,2) by simp
  then show "total_frames c = \<lfloor>of_int (fps c) * duration c\<rfloor>"
    by (simp add: total_frames_def py_int_def)
next
  show "length (generate_frames c z img) = nat (total_frames c)"
    by (simp add: generate_frames_def length_frames_run_steps)
next
  fix i assume "i < nat (total_frames c)"
  then show "generate_frames c z img ! i = frame_to_save (current_frame (run_steps c z img (Suc i)))"
    unfolding generate_frames_def by (rule frames_run_steps_nth)
next
  fix i assume "i < nat (total_frames c)"
  then have "Suc i \<le> nat (total_frames c)" by simp
  then show "frames (run_steps c z img (Suc i)) = take (Suc i) (generate_frames c z img)"
    unfolding generate_frames_def by (rule frames_run_steps_take)
qed

theorem frames_in_order_witness:
  "0 < fps init \<and> 0 < duration init \<and> 0 \<le> evolution_strength init \<and>
   total_frames init = 300 \<and>
   length (generate_frames init no_noise [[(0, 0, 0)]]) = 300 \<and>
   generate_frames init no_noise [[(0, 0, 0)]] ! 299
     = frame_to_save (current_frame (run_steps init no_noise [[(0, 0, 0)]] 300))"
proof -
  have h: "0 < fps init" "0 < duration init" "0 \<le> evolution_strength init"
    by (simp_all add: init_def)
  from frames_in_order [OF h, of no_noise "[[(0, 0, 0)]]"] h show ?thesis
    by (simp add: total_frames_init)
qed

text \<open>
  C1 (amended). At a step that wraps (\<open>overwrite_position + overwrite_width > W\<close>, with
  \<open>W = output_size[1]\<close> and a buffer of \<open>W\<close> columns), the persistent buffer after the
  merge has the evolved buffer's columns in \<open>[overwrite_position, W)\<close> and in
  \<open>[0, overflow)\<close> and its own earlier columns elsewhere. The frame the step emits is the
  8-bit quantisation of that buffer, sample by sample, not a copy of it: its columns in the
  two ranges are the quantised columns of the evolved buffer, all others the quantised
  columns of the buffer before the step.
\<close>

theorem wrap_around_merge:
  assumes "i < nat (total_frames c)" and "0 \<le> evolution_strength c"
    and "int (snd (output_size c))
           < overwrite_position i (total_frames c) (snd (output_size c))
             + overwrite_width (total_frames c) (snd (output_size c))"
    and "rect (snd (output_size c)) (current_frame st)"
    and "r < length (current_frame st)" and "j < snd (output_size c)"
  shows "last (frames (loop_body c z (total_frames c) i st))
           = frame_to_save (current_frame (loop_body c z (total_frames c) i st)) \<and>
         current_frame (loop_body c z (total_frames c) i st) ! r ! j
           = (if overwrite_position i (total_frames c) (snd (output_size c)) \<le> int j \<or>
                 int j < overwrite_position i (total_frames c) (snd (output_size c))
                         + overwrite_width (total_frames c) (snd (output_size c))
                         - int (snd (output_size c))
              then evolve_frame c (z i) (current_frame st) (real i / of_int (total_frames c)) ! r ! j
              else current_frame st ! r ! j) \<and>
         last (frames (loop_body c z (total_frames c) i st)) ! r ! j
           = map_px (\<lambda>x. to_uint8 (x * 255))
               (if overwrite_position i (total_frames c) (snd (output_size c)) \<le> int j \<or>
                   int j < overwrite_position i (total_frames c) (snd (output_size c))
                           + overwrite_width (total_frames c) (snd (output_size c))
                           - int (snd (output_size c))
                then evolve_frame c (z i) (current_frame st) (real i / of_int (total_frames c)) ! r ! j
                else current_frame st ! r ! j)"
proof -
  define T where "T = total_frames c"
  define S where "S = snd (output_size c)"
  define ev where "ev = evolve_frame c (z i) (current_frame st) (real i / of_int T)"
  define st' where "st' = loop_body c z T i st"
  have T: "0 < T" using assms(1) by (simp add: T_def)
  have len: "length (current_frame st ! r) = S"
    using assms(4,5) by (simp add: rect_nth S_def)
  have j: "j < S" using assms(6) by (simp add: S_def)
  have wrap: "int S < overwrite_position i T S + overwrite_width T S"
    using assms(3) by (simp add: T_def S_def)
  have cur: "current_frame st' = overwrite c T i (current_frame st) ev"
    by (simp add: st'_def ev_def current_frame_loop_body)
  have merged: "current_frame st' ! r ! j
      = (if overwrite_position i T S \<le> int j \<or> int j < overwrite_position i T S + overwrite_width T S - int S
         then ev ! r ! j else current_frame st ! r ! j)"
    using assms(5) j len
    by (simp add: cur overwrite_nth S_def [symmetric] wrap_region [OF T j wrap])
  have saved: "last (frames st') = frame_to_save (current_frame st')"
    unfolding st'_def by (rule last_frames_loop_body)
  have "r < length (current_frame st')" "j < length (current_frame st' ! r)"
    using assms(5) j len by (simp_all add: cur)
  then have "last (frames st') ! r ! j = map_px (\<lambda>x. to_uint8 (x * 255)) (current_frame st' ! r ! j)"
    unfolding saved by (rule frame_to_save_nth)
  with saved merged show ?thesis
    unfolding st'_def ev_def T_def S_def by (simp only: simp_thms)
qed

theorem wrap_around_merge_witness:
  "0 < nat (total_frames small_run) \<and> 0 \<le> evolution_strength small_run \<and>
   int (snd (output_size small_run))
     < overwrite_position 0 (total_frames small_run) (snd (output_size small_run))
       + overwrite_width (total_frames small_run) (snd (output_size small_run)) \<and>
   rect (snd (output_size small_run)) (current_frame (run_steps small_run no_noise stripes 0)) \<and>
   0 < length (current_frame (run_steps small_run no_noise stripes 0)) \<and>
   1 < snd (output_size small_run) \<and>
   last (frames (run_steps small_run no_noise stripes (Suc 0)))
     = frame_to_save (current_frame (run_steps small_run no_noise stripes (Suc 0))) \<and>
   current_frame (run_steps small_run no_noise stripes (Suc 0)) ! 0 ! 1
     = evolve_frame small_run (no_noise 0) (initial_frame stripes)
         (real 0 / of_int (total_frames small_run)) ! 0 ! 1 \<and>
   last (frames (run_steps small_run no_noise stripes (Suc 0))) ! 0 ! 1
     = map_px (\<lambda>x. to_uint8 (x * 255))
         (evolve_frame small_run (no_noise 0) (initial_frame stripes)
            (real 0 / of_int (total_frames small_run)) ! 0 ! 1)"
proof -
  let ?st = "run_steps small_run no_noise stripes 0"
  have h1: "0 < nat (total_frames small_run)" by (simp add: total_frames_small_run)
  have h2: "0 \<le> evolution_strength small_run" by (simp add: small_run_def)
  have S: "snd (output_size small_run) = 2" by (simp add: small_run_def)
  have h3: "int (snd (output_size small_run))
     < overwrite_position 0 (total_frames small_run) (snd (output_size small_run))
       + overwrite_width (total_frames small_run) (snd (output_size small_run))"
    by (simp add: S total_frames_small_run small_run_wraps)
  have h4: "rect (snd (output_size small_run)) (current_frame ?st)"
    by (simp add: S run_steps_0) (simp add: rect_def stripes_def)
  have h5: "0 < length (current_frame ?st)"
    by (simp add: run_steps_0 initial_frame_stripes)
  have h6: "1 < snd (output_size small_run)" by (simp add: S)
  have pos: "overwrite_position 0 (total_frames small_run) (snd (output_size small_run)) \<le> int 1"
    by (simp add: S total_frames_small_run small_run_wraps)
  have step: "loop_body small_run no_noise (total_frames small_run) 0 ?st
      = run_steps small_run no_noise stripes (Suc 0)"
    by (simp add: run_steps_Suc)
  have cur0: "current_frame ?st = initial_frame stripes" by (simp add: run_steps_0)
  have inside: "(overwrite_position 0 (total_frames small_run) (snd (output_size small_run)) \<le> int 1 \<or>
      int 1 < overwrite_position 0 (total_frames small_run) (snd (output_size small_run))
              + overwrite_width (total_frames small_run) (snd (output_size small_run))
              - int (snd (output_size small_run))) = True"
    using pos by simp
  note inst = wrap_around_merge [OF h1 h2 h3 h4 h5 h6, of no_noise, unfolded step cur0 inside if_True]
  from inst h1 h2 h3 h4 h5 h6 show ?thesis by blast
qed

text \<open>
  Against C1 as stated: in the one-step run on the striped image the step wraps, the evolved
  buffer and the buffer after the merge hold 1/2 everywhere, and the emitted frame holds 127.
\<close>

theorem emitted_frame_is_not_a_copy:
  "int (snd (output_size small_run))
     < overwrite_position 0 (total_frames small_run) (snd (output_size small_run))
       + overwrite_width (total_frames small_run) (snd (output_size small_run)) \<and>
   evolve_frame small_run (no_noise 0) (initial_frame stripes) (real 0 / of_int (total_frames small_run))
     = [[(1 / 2, 1 / 2, 1 / 2), (1 / 2, 1 / 2, 1 / 2)], [(1 / 2, 1 / 2, 1 / 2), (1 / 2, 1 / 2, 1 / 2)]] \<and>
   current_frame (run_steps small_run no_noise stripes (Suc 0))
     = [[(1 / 2, 1 / 2, 1 / 2), (1 / 2, 1 / 2, 1 / 2)], [(1 / 2, 1 / 2, 1 / 2), (1 / 2, 1 / 2, 1 / 2)]] \<and>
   generate_frames small_run no_noise stripes ! 0 = [[(127, 127, 127), (127, 127, 127)], [(127, 127, 127), (127, 127, 127)]] \<and>
   sample_values (generate_frames small_run no_noise stripes ! 0)
     \<noteq> current_frame (run_steps small_run no_noise stripes (Suc 0))"
proof -
  have "int (snd (output_size small_run))
     < overwrite_position 0 (total_frames small_run) (snd (output_size small_run))
       + overwrite_width (total_frames small_run) (snd (output_size small_run))"
    by (simp add: small_run_def total_frames_small_run [unfolded small_run_def] small_run_wraps)
  moreover have "generate_frames small_run no_noise stripes ! 0 = [[(127, 127, 127), (127, 127, 127)], [(127, 127, 127), (127, 127, 127)]]"
    by (simp add: generate_frames_def total_frames_small_run small_run_steps)
  moreover have "sample_values [[(127, 127, 127), (127, 127, 127)], [(127, 127, 127), (127, 127, 127)]]
     \<noteq> [[(1 / 2, 1 / 2, 1 / 2), (1 / 2, 1 / 2, 1 / 2)], [(1 / 2, 1 / 2, 1 / 2), (1 / 2, 1 / 2, 1 / 2)]]"
    by (simp add: sample_values_def byte_value_def)
  ultimately show ?thesis
    by (simp add: evolve_stripes small_run_steps)
qed

text \<open>
  C10. Frame \<open>i\<close> is the 8-bit quantisation of the persistent buffer after the merge of
  step \<open>i\<close>: every sample of the frame is \<open>floor (x * 255)\<close> of the buffer's sample
  \<open>x\<close>, and is not that sample unless the pixel is black. The next step works from the
  buffer itself, not from the saved frame, and the frames go to the video assembler with
  their channels reversed.
\<close>

theorem frames_are_quantized:
  assumes "i < nat (total_frames c)" and "0 \<le> evolution_strength c"
    and "rect w img" and "r < length img" and "j < w"
  shows "generate_frames c z img ! i ! r ! j
           = map_px (\<lambda>x. to_uint8 (x * 255)) (current_frame (run_steps c z img (Suc i)) ! r ! j) \<and>
         map_px unat (generate_frames c z img ! i ! r ! j)
           = map_px (\<lambda>x. nat \<lfloor>x * 255\<rfloor>) (current_frame (run_steps c z img (Suc i)) ! r ! j) \<and>
         (current_frame (run_steps c z img (Suc i)) ! r ! j \<noteq> (0, 0, 0) \<longrightarrow>
            map_px byte_value (generate_frames c z img ! i ! r ! j)
              \<noteq> current_frame (run_steps c z img (Suc i)) ! r ! j) \<and>
         current_frame (run_steps c z img (Suc (Suc i)))
           = overwrite c (total_frames c) (Suc i) (current_frame (run_steps c z img (Suc i)))
               (evolve_frame c (z (Suc i)) (current_frame (run_steps c z img (Suc i)))
                  (real (Suc i) / of_int (total_frames c))) \<and>
         (load image_path (output_size c) = Inr img \<longrightarrow>
            create_evolving_video load write z c image_path output_path
              = (case write (map (map (map reverse_channels)) (generate_frames c z img)) (fps c) output_path of
                   Some e \<Rightarrow> Inl e
                 | None \<Rightarrow> Inr output_path))"
proof -
  let ?b = "current_frame (run_steps c z img (Suc i))"
  have rect: "rect w ?b" using assms(3) by (simp add: rect_run_steps)
  have r: "r < length ?b" using assms(4) by simp
  have j: "j < length (?b ! r)" using rect r assms(5) by (simp add: rect_nth)
  have unit: "unit_px (?b ! r ! j)"
    using in_unit_run_steps [OF assms(3)] r j by (rule unit_px_nth)
  have "generate_frames c z img ! i = frame_to_save ?b"
    unfolding generate_frames_def using assms(1) by (rule frames_run_steps_nth)
  then have q: "generate_frames c z img ! i ! r ! j = map_px (\<lambda>x. to_uint8 (x * 255)) (?b ! r ! j)"
    using r j by (simp add: frame_to_save_nth)
  have fl: "map_px unat (generate_frames c z img ! i ! r ! j) = map_px (\<lambda>x. nat \<lfloor>x * 255\<rfloor>) (?b ! r ! j)"
    unfolding q using unit by (rule quantize_px_unit)
  have ne: "?b ! r ! j \<noteq> (0, 0, 0) \<longrightarrow>
      map_px byte_value (generate_frames c z img ! i ! r ! j) \<noteq> ?b ! r ! j"
    unfolding q using quantize_px_differs [OF unit] by blast
  have nxt: "current_frame (run_steps c z img (Suc (Suc i)))
      = overwrite c (total_frames c) (Suc i) ?b
          (evolve_frame c (z (Suc i)) ?b (real (Suc i) / of_int (total_frames c)))"
    by (simp only: run_steps_Suc [of c z img "Suc i"] current_frame_loop_body)
  have asm: "load image_path (output_size c) = Inr img \<longrightarrow>
      create_evolving_video load write z c image_path output_path
        = (case write (map (map (map reverse_channels)) (generate_frames c z img)) (fps c) output_path of
             Some e \<Rightarrow> Inl e | None \<Rightarrow> Inr output_path)"
    by (simp add: create_evolving_video_def)
  from q fl ne nxt asm show ?thesis by (intro conjI)
qed


theorem frames_are_quantized_witness:
  "0 < nat (total_frames small_run) \<and> 0 \<le> evolution_strength small_run \<and>
   rect 2 stripes \<and> 0 < length stripes \<and>
   current_frame (run_steps small_run no_noise stripes (Suc 0)) ! 0 ! 1 = (1 / 2, 1 / 2, 1 / 2) \<and>
   generate_frames small_run no_noise stripes ! 0 ! 0 ! 1 = (127, 127, 127) \<and>
   generate_frames small_run no_noise stripes ! 0 ! 0 ! 1
     = map_px (\<lambda>x. to_uint8 (x * 255)) (current_frame (run_steps small_run no_noise stripes (Suc 0)) ! 0 ! 1) \<and>
   map_px unat (generate_frames small_run no_noise stripes ! 0 ! 0 ! 1)
     = map_px (\<lambda>x. nat \<lfloor>x * 255\<rfloor>) (current_frame (run_steps small_run no_noise stripes (Suc 0)) ! 0 ! 1) \<and>
   map_px byte_value (generate_frames small_run no_noise stripes ! 0 ! 0 ! 1)
     \<noteq> current_frame (run_steps small_run no_noise stripes (Suc 0)) ! 0 ! 1 \<and>
   create_evolving_video (\<lambda>p s. Inr stripes) (\<lambda>fs f p. None) no_noise small_run ''in.png'' ''out.mp4''
     = (Inr ''out.mp4'' :: unit + string)"
proof -
  have h1: "0 < nat (total_frames small_run)" by (simp add: total_frames_small_run)
  have h2: "0 \<le> evolution_strength small_run" by (simp add: small_run_def)
  have h3: "rect 2 stripes" by (simp add: rect_def stripes_def)
  have h4: "0 < length stripes" by (simp add: stripes_def)
  have h5: "(1::nat) < 2" by simp
  have cur: "current_frame (run_steps small_run no_noise stripes (Suc 0)) ! 0 ! 1 = (1 / 2, 1 / 2, 1 / 2)"
    by (simp add: small_run_steps)
  have ne: "current_frame (run_steps small_run no_noise stripes (Suc 0)) ! 0 ! 1 \<noteq> (0, 0, 0)"
    unfolding cur by simp
  have fr: "generate_frames small_run no_noise stripes ! 0 ! 0 ! 1 = (127, 127, 127)"
    by (simp add: generate_frames_def total_frames_small_run small_run_steps)
  have ld: "(\<lambda>p s. Inr stripes) ''in.png'' (output_size small_run) = (Inr stripes :: unit + image)"
    by simp
  note inst = frames_are_quantized [OF h1 h2 h3 h4 h5,
      of no_noise "\<lambda>p s. Inr stripes :: unit + image" "''in.png''" "\<lambda>fs f p. None" "''out.mp4''"]
  from inst ne have a: "map_px byte_value (generate_frames small_run no_noise stripes ! 0 ! 0 ! 1)
     \<noteq> current_frame (run_steps small_run no_noise stripes (Suc 0)) ! 0 ! 1"
    by blast
  from inst have b: "generate_frames small_run no_noise stripes ! 0 ! 0 ! 1
     = map_px (\<lambda>x. to_uint8 (x * 255)) (current_frame (run_steps small_run no_noise stripes (Suc 0)) ! 0 ! 1)"
    by blast
  from inst have c: "map_px unat (generate_frames small_run no_noise stripes ! 0 ! 0 ! 1)
     = map_px (\<lambda>x. nat \<lfloor>x * 255\<rfloor>) (current_frame (run_steps small_run no_noise stripes (Suc 0)) ! 0 ! 1)"
    by blast
  from inst ld have d: "create_evolving_video (\<lambda>p s. Inr stripes) (\<lambda>fs f p. None) no_noise small_run ''in.png'' ''out.mp4''
     = (Inr ''out.mp4'' :: unit + string)"
    by simp
  from h1 h2 h3 h4 cur fr a b c d show ?thesis by (intro conjI)
qed

text \<open>
  C5 (amended). In every step of a run, the evolved buffer and the persistent buffer after
  the merge have all their samples in [0, 1]: the transform clamps after adding the noise,
  the blur is a weighted mean and the merge copies columns. The emitted frame is not in
  that domain: its samples are the integers \<open>floor (x * 255)\<close> of the buffer's samples
  \<open>x\<close>, which lie in [0, 255].
\<close>

theorem sample_domain:
  assumes "rect w img" and "0 \<le> evolution_strength c" and "i < nat (total_frames c)"
  shows "in_unit (evolve_frame c (z i) (current_frame (run_steps c z img i))
                    (real i / of_int (total_frames c))) \<and>
         in_unit (current_frame (run_steps c z img (Suc i))) \<and>
         sample_values (generate_frames c z img ! i)
           = map (map (map_px (\<lambda>x. of_int \<lfloor>x * 255\<rfloor>))) (current_frame (run_steps c z img (Suc i))) \<and>
         in_unit (map (map (map_px (\<lambda>x. x / 255))) (sample_values (generate_frames c z img ! i)))"
proof (intro conjI)
  have "rect w (current_frame (run_steps c z img i))" using assms(1) by (simp add: rect_run_steps)
  then show "in_unit (evolve_frame c (z i) (current_frame (run_steps c z img i))
                    (real i / of_int (total_frames c)))"
    by (rule in_unit_evolve_frame)
  show u: "in_unit (current_frame (run_steps c z img (Suc i)))"
    using assms(1) by (rule in_unit_run_steps)
  have "generate_frames c z img ! i = frame_to_save (current_frame (run_steps c z img (Suc i)))"
    unfolding generate_frames_def using assms(3) by (rule frames_run_steps_nth)
  then show "sample_values (generate_frames c z img ! i)
           = map (map (map_px (\<lambda>x. of_int \<lfloor>x * 255\<rfloor>))) (current_frame (run_steps c z img (Suc i)))"
    using u by (simp add: sample_values_frame_to_save)
  show "in_unit (map (map (map_px (\<lambda>x. x / 255))) (sample_values (generate_frames c z img ! i)))"
    by (rule in_unit_sample_values)
qed

theorem sample_domain_witness:
  "rect 2 stripes \<and> 0 \<le> evolution_strength small_run \<and> 0 < nat (total_frames small_run) \<and>
   in_unit (evolve_frame small_run (no_noise 0) (current_frame (run_steps small_run no_noise stripes 0))
              (real 0 / of_int (total_frames small_run))) \<and>
   in_unit (current_frame (run_steps small_run no_noise stripes (Suc 0))) \<and>
   sample_values (generate_frames small_run no_noise stripes ! 0)
     = map (map (map_px (\<lambda>x. of_int \<lfloor>x * 255\<rfloor>))) (current_frame (run_steps small_run no_noise stripes (Suc 0))) \<and>
   in_unit (map (map (map_px (\<lambda>x. x / 255))) (sample_values (generate_frames small_run no_noise stripes ! 0)))"
proof -
  have h1: "rect 2 stripes" by (simp add: rect_def stripes_def)
  have h2: "0 \<le> evolution_strength small_run" by (simp add: small_run_def)
  have h3: "0 < nat (total_frames small_run)" by (simp add: total_frames_small_run)
  from sample_domain [OF h1 h2 h3, of no_noise] h1 h2 h3 show ?thesis by blast
qed

text \<open>
  Against C5 as stated: the one-step run on the striped image starts from a buffer in [0, 1]
  and emits a frame whose samples are 127.
\<close>

theorem emitted_samples_exceed_one:
  "in_unit (initial_frame stripes) \<and>
   generate_frames small_run no_noise stripes ! 0
     = [[(127, 127, 127), (127, 127, 127)], [(127, 127, 127), (127, 127, 127)]] \<and>
   \<not> in_unit (sample_values (generate_frames small_run no_noise stripes ! 0))"
proof -
  have fr: "generate_frames small_run no_noise stripes ! 0
     = [[(127, 127, 127), (127, 127, 127)], [(127, 127, 127), (127, 127, 127)]]"
    by (simp add: generate_frames_def total_frames_small_run small_run_steps)
  have "\<not> in_unit (sample_values [[(127, 127, 127), (127, 127, 127)], [(127, 127, 127), (127, 127, 127)]])"
    by (simp add: in_unit_def sample_values_def byte_value_def)
  with fr show ?thesis by (simp add: in_unit_initial_frame)
qed

text \<open>
  C7. The code takes the hue modulo 180 and scales the shift by 180, on a buffer whose hue
  has the period 360: float32 data keeps the hue in degrees. A hue of 240 (the pixel
  (0, 0, 1)) at progress 0, where the shift is 0, becomes 60 and the pixel comes back as
  (1, 1, 0), where \<open>(hue + shift * period) mod period\<close> leaves it at 240.
\<close>

theorem hue_folded_at_180:
  "hue_period = 360 \<and> rgb2hsv (0, 0, 1) = (240, 1, 1) \<and> hue_shift 0 = 0 \<and>
   py_mod (240 + hue_shift 0 * hue_period) hue_period = 240 \<and>
   shift_hsv 0 (240, 1, 1) = (60, 1, 1) \<and>
   recolor 0 (0, 0, 1) = (1, 1, 0) \<and>
   evolve_frame small_run (no_noise 0) [[(0, 0, 1)]] 0 = [[(1, 1, 0)]]"
proof -
  have s0: "evolution_strength small_run = 0" by (simp add: small_run_def)
  have u: "in_unit [[(0, 0, 1)]]" by (simp add: in_unit_def)
  have "evolve_frame small_run (no_noise 0) [[(0, 0, 1)]] 0 = GaussianBlur (map (map (recolor 0)) [[(0, 0, 1)]])"
    using s0 u by (rule evolve_frame_noiseless)
  also have "\<dots> = GaussianBlur (replicate 1 (replicate 1 (1, 1, 0)))"
    by (simp add: recolor_blue)
  also have "\<dots> = replicate 1 (replicate 1 (1, 1, 0))" by (rule GaussianBlur_uniform)
  finally have ev: "evolve_frame small_run (no_noise 0) [[(0, 0, 1)]] 0 = [[(1, 1, 0)]]" by simp
  have "py_mod (240 + hue_shift 0 * hue_period) hue_period = 240"
    by (simp add: hue_shift_0 hue_period_def py_mod_def)
  moreover have "shift_hsv 0 (240, 1, 1) = (60, 1, 1)"
    by (simp add: hue_shift_0 saturation_factor_0 py_mod_240 clip_def)
  moreover have "rgb2hsv (0, 0, 1) = (240, 1, 1)" by (simp add: Let_def)
  ultimately show ?thesis using ev by (simp add: hue_period_def hue_shift_0 recolor_blue)
qed

text \<open>
  C8 (amended). With strength 0 the noise is zero and, for a buffer in [0, 1], the clamp
  changes nothing: the output is the blur of the colour-shifted buffer. The blur still
  applies, so the transform is not the identity function: at every progress it changes the
  striped buffer. It does have fixed points: a buffer of one uniform grey level comes back
  unchanged at every progress.
\<close>

theorem strength_zero_is_blur:
  assumes "evolution_strength c = 0" and "in_unit b"
  shows "evolve_frame c z b p = GaussianBlur (map (map (recolor p)) b) \<and>
         evolve_frame c z (initial_frame stripes) p \<noteq> initial_frame stripes \<and>
         (\<forall>g h w. 0 \<le> g \<and> g \<le> 1 \<longrightarrow>
            evolve_frame c z (replicate h (replicate w (g, g, g))) p = replicate h (replicate w (g, g, g)))"
proof (intro conjI allI impI)
  show "evolve_frame c z b p = GaussianBlur (map (map (recolor p)) b)"
    using assms by (rule evolve_frame_noiseless)
  have "[[(1 / 2, 1 / 2, 1 / 2), (1 / 2, 1 / 2, 1 / 2)], [(1 / 2, 1 / 2, 1 / 2), (1 / 2, 1 / 2, 1 / 2)]]
      \<noteq> initial_frame stripes"
    by (simp add: initial_frame_stripes)
  then show "evolve_frame c z (initial_frame stripes) p \<noteq> initial_frame stripes"
    by (simp only: evolve_stripes_any [OF assms(1)] simp_thms)
  fix g :: real and h w :: nat
  assume "0 \<le> g \<and> g \<le> 1"
  then show "evolve_frame c z (replicate h (replicate w (g, g, g))) p = replicate h (replicate w (g, g, g))"
    using assms(1) by (simp add: evolve_frame_grey)
qed

theorem strength_zero_is_blur_witness:
  "evolution_strength small_run = 0 \<and> in_unit (initial_frame stripes) \<and>
   evolve_frame small_run (no_noise 0) (initial_frame stripes) 0
     = GaussianBlur (map (map (recolor 0)) (initial_frame stripes)) \<and>
   evolve_frame small_run (no_noise 0) (initial_frame stripes) 0 \<noteq> initial_frame stripes \<and>
   evolve_frame small_run (no_noise 0) (replicate 3 (replicate 2 (1 / 4, 1 / 4, 1 / 4))) 0
     = replicate 3 (replicate 2 (1 / 4, 1 / 4, 1 / 4))"
proof -
  have h1: "evolution_strength small_run = 0" by (simp add: small_run_def)
  have h2: "in_unit (initial_frame stripes)" by (rule in_unit_initial_frame)
  have g: "(0::real) \<le> 1 / 4 \<and> (1 / 4 :: real) \<le> 1" by simp
  from strength_zero_is_blur [OF h1 h2, of "no_noise 0" 0] g h1 h2 show ?thesis by blast
qed

text \<open>
  Against C8 as stated: the transform at strength 0 returns the one-pixel grey buffer
  unchanged, so it is not true that it changes every buffer.
\<close>

theorem grey_buffer_is_a_fixed_point:
  "evolution_strength small_run = 0 \<and>
   evolve_frame small_run (no_noise 0) [[(1 / 2, 1 / 2, 1 / 2)]] 0 = [[(1 / 2, 1 / 2, 1 / 2)]] \<and>
   \<not> (\<forall>b p. evolve_frame small_run (no_noise 0) b p \<noteq> b)"
proof -
  have h1: "evolution_strength small_run = 0" by (simp add: small_run_def)
  have "evolve_frame small_run (no_noise 0) (replicate 1 (replicate 1 (1 / 2, 1 / 2, 1 / 2))) 0
      = replicate 1 (replicate 1 (1 / 2, 1 / 2, 1 / 2))"
    using h1 by (rule evolve_frame_grey) simp_all
  then have fp: "evolve_frame small_run (no_noise 0) [[(1 / 2, 1 / 2, 1 / 2)]] 0 = [[(1 / 2, 1 / 2, 1 / 2)]]"
    by simp
  then have "\<not> (\<forall>b p. evolve_frame small_run (no_noise 0) b p \<noteq> b)" by blast
  with h1 fp show ?thesis by blast
qed

text \<open>
  C4. The position and the width are computed from \<open>output_size[1]\<close>, the height that
  \<^verbatim>\<open>cv2.resize\<close> is given, while the columns that are replaced run along the axis of
  size \<open>output_size[0]\<close>. For a frame of width 4 and height 2 and four frames, the steps
  are at positions 0, 0, 1, 1 with width 1, where \<open>floor (i / total_frames * 4)\<close> is
  0, 1, 2, 3, and columns 2 and 3 of the buffer are in no step's region.
\<close>

theorem scan_length_is_the_height:
  "output_size wide = (4, 2) \<and> total_frames wide = 4 \<and>
   map (\<lambda>i. overwrite_position i (total_frames wide) (snd (output_size wide))) [0, 1, 2, 3] = [0, 0, 1, 1] \<and>
   map (\<lambda>i. \<lfloor>real i / of_int (total_frames wide) * real (fst (output_size wide))\<rfloor>) [0, 1, 2, 3] = [0, 1, 2, 3] \<and>
   overwrite_width (total_frames wide) (snd (output_size wide)) = 1 \<and>
   list_all (\<lambda>i. \<not> overwrite_region (fst (output_size wide)) (snd (output_size wide)) (total_frames wide) i 2 \<and>
                 \<not> overwrite_region (fst (output_size wide)) (snd (output_size wide)) (total_frames wide) i 3)
     [0, 1, 2, 3]"
proof -
  have os: "output_size wide = (4, 2)" by (simp add: wide_def)
  have p: "overwrite_position 0 4 2 = 0" "overwrite_position (Suc 0) 4 2 = 0"
    "overwrite_position 2 4 2 = 1" "overwrite_position 3 4 2 = 1"
    by (simp_all add: overwrite_position_def py_int_def)
  have w: "overwrite_width 4 2 = 1" by (simp add: overwrite_width_def py_int_def)
  show ?thesis
    by (simp add: os total_frames_wide p w overwrite_region_def in_slice_def slice_index_def)
qed

text \<open>
  The scenario of C4, for the default parameters: 300 frames, position 0 and width 3 at
  frame 0 with no wrap, and a wrap at frame 299.
\<close>

theorem scenario_512:
  "total_frames init = 300 \<and> snd (output_size init) = 512 \<and>
   overwrite_position 0 (total_frames init) (snd (output_size init)) = 0 \<and>
   overwrite_width (total_frames init) (snd (output_size init)) = 3 \<and>
   \<not> int (snd (output_size init))
       < overwrite_position 0 (total_frames init) (snd (output_size init))
         + overwrite_width (total_frames init) (snd (output_size init)) \<and>
   overwrite_position 299 (total_frames init) (snd (output_size init)) = 510 \<and>
   int (snd (output_size init))
     < overwrite_position 299 (total_frames init) (snd (output_size init))
       + overwrite_width (total_frames init) (snd (output_size init))"
proof -
  have S: "snd (output_size init) = 512" by (simp add: init_def)
  have "overwrite_position 0 300 512 = 0" "overwrite_position 299 300 512 = 510"
    "overwrite_width 300 512 = 3"
    by (simp_all add: overwrite_position_def overwrite_width_def py_int_def)
  then show ?thesis by (simp add: S total_frames_init)
qed

text \<open>
  The formulas of C4 with \<open>W = output_size[1]\<close>: for every frame index below
  \<open>total_frames\<close>, the position is \<open>floor (i / total_frames * W)\<close>, the width is
  \<open>max 1 (floor (W / total_frames * 2))\<close>, both are the integer quotients, the width is at
  least 1 and the position is a column index below \<open>W\<close>.
\<close>

theorem position_and_width:
  assumes "i < nat (total_frames c)"
  shows "overwrite_position i (total_frames c) (snd (output_size c))
           = \<lfloor>real i / of_int (total_frames c) * real (snd (output_size c))\<rfloor> \<and>
         overwrite_position i (total_frames c) (snd (output_size c))
           = (int i * int (snd (output_size c))) div total_frames c \<and>
         overwrite_width (total_frames c) (snd (output_size c))
           = max 1 \<lfloor>real (snd (output_size c)) / of_int (total_frames c) * 2\<rfloor> \<and>
         overwrite_width (total_frames c) (snd (output_size c))
           = max 1 ((2 * int (snd (output_size c))) div total_frames c) \<and>
         1 \<le> overwrite_width (total_frames c) (snd (output_size c)) \<and>
         0 \<le> overwrite_position i (total_frames c) (snd (output_size c)) \<and>
         (0 < snd (output_size c) \<longrightarrow>
            overwrite_position i (total_frames c) (snd (output_size c)) < int (snd (output_size c)))"
proof -
  define t where "t = nat (total_frames c)"
  define S where "S = snd (output_size c)"
  have t: "0 < t" and T: "total_frames c = int t" and i: "i < t" using assms by (simp_all add: t_def)
  have p: "overwrite_position i (int t) S = int ((i * S) div t)" using t by (rule overwrite_position_div)
  have w: "overwrite_width (int t) S = int (max 1 ((2 * S) div t))" using t by (rule overwrite_width_div)
  have p1: "overwrite_position i (int t) S = \<lfloor>real i / of_int (int t) * real S\<rfloor>"
    by (simp add: overwrite_position_def py_int_def)
  have w1: "overwrite_width (int t) S = max 1 \<lfloor>real S / of_int (int t) * 2\<rfloor>"
    by (simp add: overwrite_width_def py_int_def)
  have p2: "overwrite_position i (int t) S = (int i * int S) div int t"
    unfolding p by (simp add: zdiv_int)
  have w2: "overwrite_width (int t) S = max 1 ((2 * int S) div int t)"
    unfolding w by (simp add: zdiv_int of_nat_max)
  have lt: "overwrite_position i (int t) S < int S" if "0 < S"
  proof -
    have "i * S < S * t" using i that by (simp add: mult.commute)
    then have "(i * S) div t < S" using t by (simp only: div_less_iff_less_mult)
    then show ?thesis unfolding p by simp
  qed
  show ?thesis
    unfolding T S_def [symmetric]
    using p1 p2 w1 w2 lt by (simp add: p overwrite_width_ge1)
qed

theorem position_and_width_witness:
  "299 < nat (total_frames init) \<and>
   overwrite_position 299 (total_frames init) (snd (output_size init))
     = \<lfloor>real 299 / of_int (total_frames init) * real (snd (output_size init))\<rfloor> \<and>
   overwrite_width (total_frames init) (snd (output_size init))
     = max 1 \<lfloor>real (snd (output_size init)) / of_int (total_frames init) * 2\<rfloor> \<and>
   1 \<le> overwrite_width (total_frames init) (snd (output_size init)) \<and>
   overwrite_position 299 (total_frames init) (snd (output_size init)) < int (snd (output_size init))"
proof -
  have h: "299 < nat (total_frames init)" by (simp add: total_frames_init)
  have S: "0 < snd (output_size init)" by (simp add: init_def)
  from position_and_width [OF h] h S show ?thesis by blast
qed

text \<open>
  The merge of a step that does not wrap, beside C1: with \<open>W = output_size[1]\<close> and a
  buffer of \<open>W\<close> columns, the columns in
  \<open>[overwrite_position, overwrite_position + overwrite_width)\<close> are the evolved buffer's
  and every other column is left as it was.
\<close>

theorem contiguous_merge:
  assumes "i < nat (total_frames c)" and "0 \<le> evolution_strength c"
    and "\<not> int (snd (output_size c))
           < overwrite_position i (total_frames c) (snd (output_size c))
             + overwrite_width (total_frames c) (snd (output_size c))"
    and "rect (snd (output_size c)) (current_frame st)"
    and "r < length (current_frame st)" and "j < snd (output_size c)"
  shows "current_frame (loop_body c z (total_frames c) i st) ! r ! j
           = (if overwrite_position i (total_frames c) (snd (output_size c)) \<le> int j \<and>
                 int j < overwrite_position i (total_frames c) (snd (output_size c))
                         + overwrite_width (total_frames c) (snd (output_size c))
              then evolve_frame c (z i) (current_frame st) (real i / of_int (total_frames c)) ! r ! j
              else current_frame st ! r ! j)"
proof -
  have T: "0 < total_frames c" using assms(1) by simp
  have len: "length (current_frame st ! r) = snd (output_size c)"
    using assms(4,5) by (simp add: rect_nth)
  show ?thesis
    using assms(5,6) len
    by (simp add: current_frame_loop_body overwrite_nth nowrap_region [OF T assms(6) assms(3)])
qed

theorem contiguous_merge_witness:
  "0 < nat (total_frames init) \<and> 0 \<le> evolution_strength init \<and>
   \<not> int (snd (output_size init))
       < overwrite_position 0 (total_frames init) (snd (output_size init))
         + overwrite_width (total_frames init) (snd (output_size init)) \<and>
   rect (snd (output_size init)) (replicate 1 (replicate 512 (0, 0, 0)) :: buffer) \<and>
   3 < snd (output_size init) \<and>
   current_frame (loop_body init no_noise (total_frames init) 0
       \<lparr>current_frame = replicate 1 (replicate 512 (0, 0, 0)), frames = []\<rparr>) ! 0 ! 3
     = replicate 1 (replicate 512 (0, 0, 0)) ! 0 ! 3"
proof -
  let ?b = "replicate 1 (replicate 512 (0, 0, 0)) :: buffer"
  let ?st = "\<lparr>current_frame = ?b, frames = []\<rparr>"
  have S: "snd (output_size init) = 512" by (simp add: init_def)
  have pw: "overwrite_position 0 300 512 = 0" "overwrite_width 300 512 = 3"
    by (simp_all add: overwrite_position_def overwrite_width_def py_int_def)
  have h1: "0 < nat (total_frames init)" by (simp add: total_frames_init)
  have h2: "0 \<le> evolution_strength init" by (simp add: init_def)
  have h3: "\<not> int (snd (output_size init))
       < overwrite_position 0 (total_frames init) (snd (output_size init))
         + overwrite_width (total_frames init) (snd (output_size init))"
    by (simp add: S total_frames_init pw)
  have h4: "rect (snd (output_size init)) (current_frame ?st)" by (simp add: S rect_def)
  have h5: "0 < length (current_frame ?st)" by simp
  have h6: "3 < snd (output_size init)" by (simp add: S)
  have outside: "(overwrite_position 0 (total_frames init) (snd (output_size init)) \<le> int 3 \<and>
      int 3 < overwrite_position 0 (total_frames init) (snd (output_size init))
              + overwrite_width (total_frames init) (snd (output_size init))) = False"
    by (simp add: S total_frames_init pw)
  have cur: "current_frame ?st = ?b" by simp
  note inst = contiguous_merge [OF h1 h2 h3 h4 h5 h6, of no_noise, unfolded outside if_False cur]
  from inst h1 h2 h3 h4 [unfolded cur] h6 show ?thesis by blast
qed

text \<open>
  The shifts of the transform, beside C7: the hue shift is 0 at progress 0 and 1/2, 1/10 at
  1/4 and -1/10 at 3/4, and never exceeds 1/10 in size; the saturation factor stays within
  [0.9, 1.1]; after lines 77 and 80 the hue lies in [0, 180), the saturation in [0, 1], and
  the value is unchanged.
\<close>

theorem shift_ranges:
  "hue_shift 0 = 0 \<and> hue_shift (1 / 2) = 0 \<and> hue_shift (1 / 4) = 1 / 10 \<and> hue_shift (3 / 4) = - (1 / 10) \<and>
   \<bar>hue_shift p\<bar> \<le> 1 / 10 \<and>
   9 / 10 \<le> saturation_factor p \<and> saturation_factor p \<le> 11 / 10 \<and>
   0 \<le> fst (shift_hsv p (h, s, v)) \<and> fst (shift_hsv p (h, s, v)) < 180 \<and>
   0 \<le> fst (snd (shift_hsv p (h, s, v))) \<and> fst (snd (shift_hsv p (h, s, v))) \<le> 1 \<and>
   snd (snd (shift_hsv p (h, s, v))) = v"
proof -
  have a: "\<bar>sin (p * 2 * pi)\<bar> \<le> 1" by (rule abs_sin_le_one)
  have hs: "\<bar>hue_shift p\<bar> \<le> 1 / 10" using a by (simp add: hue_shift_def abs_mult)
  have "- 1 \<le> sin (p * 3 * pi)" "sin (p * 3 * pi) \<le> 1" by simp_all
  then have sf: "9 / 10 \<le> saturation_factor p \<and> saturation_factor p \<le> 11 / 10"
    unfolding saturation_factor_def by linarith
  have hr: "0 \<le> py_mod (h + hue_shift p * 180) 180 \<and> py_mod (h + hue_shift p * 180) 180 < 180"
    by (rule py_mod_range) simp
  have v0: "hue_shift 0 = 0" by (rule hue_shift_0)
  have v1: "hue_shift (1 / 2) = 0" unfolding hue_shift_def by (simp only: sin_half_turn mult_zero_left)
  have v2: "hue_shift (1 / 4) = 1 / 10" unfolding hue_shift_def by (simp only: sin_quarter_turn mult_1)
  have v3: "hue_shift (3 / 4) = - (1 / 10)" unfolding hue_shift_def by (simp only: sin_three_quarter_turn mult_minus1)
  from v0 v1 v2 v3 hs sf hr show ?thesis by (simp add: clip_unit)
qed

text \<open>
  C6 (amended). When \<open>total_frames\<close> is less than 1 the run fails, but not by a check of
  its own and not with an \<open>InvalidConfiguration\<close> error: the loop runs no step and emits
  no frame, and building the clip from the empty frame list raises \<open>IndexError\<close> at line
  59 (after the image is loaded; a loader that fails gives its own error first). The
  encoder of line 60 is not reached, whatever it would do, so no file is written.
\<close>

theorem empty_run_fails_in_the_assembler:
  assumes "total_frames c < 1"
  shows "generate_frames c z img = [] \<and>
         create_evolving_video load (write_clip encode) z c image_path output_path
           = (case load image_path (output_size c) of
                Inl e \<Rightarrow> Inl e
              | Inr loaded \<Rightarrow> Inl IndexError) \<and>
         create_evolving_video load (write_clip encode) z c image_path output_path
           = create_evolving_video load (write_clip other_encode) z c image_path output_path"
proof -
  have e: "generate_frames c z loaded = []" for loaded
    using assms by (rule generate_frames_empty)
  have r: "create_evolving_video load (write_clip enc) z c image_path output_path
           = (case load image_path (output_size c) of
                Inl e \<Rightarrow> Inl e
              | Inr loaded \<Rightarrow> Inl IndexError)" for enc :: "image list \<Rightarrow> int \<Rightarrow> string \<Rightarrow> 'a option"
    by (simp add: create_evolving_video_def e write_clip_empty split: sum.splits)
  from e r [of encode] r [of other_encode] show ?thesis by (simp only: simp_thms)
qed

theorem empty_run_fails_in_the_assembler_witness:
  "total_frames (init\<lparr>duration := 0\<rparr>) < 1 \<and>
   generate_frames (init\<lparr>duration := 0\<rparr>) no_noise stripes = [] \<and>
   create_evolving_video (\<lambda>p s. Inr stripes) (write_clip (\<lambda>fs f p. None))
       no_noise (init\<lparr>duration := 0\<rparr>) ''in.png'' ''out.mp4''
     = (Inl IndexError :: unit failure + string) \<and>
   create_evolving_video (\<lambda>p s. Inr stripes) (write_clip (\<lambda>fs f p. None))
       no_noise (init\<lparr>duration := 0\<rparr>) ''in.png'' ''out.mp4''
     = (create_evolving_video (\<lambda>p s. Inr stripes) (write_clip (\<lambda>fs f p. Some ()))
       no_noise (init\<lparr>duration := 0\<rparr>) ''in.png'' ''out.mp4'' :: unit failure + string)"
proof -
  have h: "total_frames (init\<lparr>duration := 0\<rparr>) < 1" by (simp add: total_frames_zero_duration)
  note inst = empty_run_fails_in_the_assembler [OF h, of no_noise stripes
      "\<lambda>p s. Inr stripes :: unit failure + image" "\<lambda>fs f p. None" "''in.png''" "''out.mp4''"
      "\<lambda>fs f p. Some ()", simplified]
  from inst h show ?thesis by blast
qed

text \<open>
  Against C6 as stated: for fps 30 and duration 0 the run ends with \<open>IndexError\<close>, which
  is not \<open>InvalidConfiguration\<close>.
\<close>

theorem empty_run_error_is_not_invalid_configuration:
  "fps (init\<lparr>duration := 0\<rparr>) = 30 \<and> duration (init\<lparr>duration := 0\<rparr>) = 0 \<and>
   total_frames (init\<lparr>duration := 0\<rparr>) = 0 \<and>
   create_evolving_video (\<lambda>p s. Inr stripes) (write_clip (\<lambda>fs f p. None))
       no_noise (init\<lparr>duration := 0\<rparr>) ''in.png'' ''out.mp4''
     = (Inl IndexError :: unit failure + string) \<and>
   create_evolving_video (\<lambda>p s. Inr stripes) (write_clip (\<lambda>fs f p. None))
       no_noise (init\<lparr>duration := 0\<rparr>) ''in.png'' ''out.mp4''
     \<noteq> (Inl InvalidConfiguration :: unit failure + string)"
proof -
  have "generate_frames (init\<lparr>duration := 0\<rparr>) no_noise stripes = []"
    by (rule generate_frames_empty) (simp add: total_frames_zero_duration)
  then have "create_evolving_video (\<lambda>p s. Inr stripes) (write_clip (\<lambda>fs f p. None))
       no_noise (init\<lparr>duration := 0\<rparr>) ''in.png'' ''out.mp4''
     = (Inl IndexError :: unit failure + string)"
    by (simp add: create_evolving_video_def write_clip_empty)
  then show ?thesis by (simp add: total_frames_zero_duration) (simp add: init_def)
qed

text \<open>
  C2. The run with frames of width 4 and height 2 and four frames has valid parameters, and
  its buffer has 4 columns. Columns 2 and 3 are in no step's overwrite region, and after
  any number of steps of the run they still hold the initial frame: the scan covers the
  columns below \<open>output_size[1]\<close>, the height, and not the width of the buffer. This is
  the defect of C4.
\<close>

theorem right_columns_are_never_replaced:
  assumes "rect (fst (output_size wide)) img" and "r < length img"
    and "snd (output_size wide) \<le> j" and "j < fst (output_size wide)"
    and "n \<le> nat (total_frames wide)"
  shows "(\<forall>i<nat (total_frames wide).
            \<not> overwrite_region (fst (output_size wide)) (snd (output_size wide)) (total_frames wide) i j) \<and>
         current_frame (run_steps wide z img n) ! r ! j = initial_frame img ! r ! j"
proof -
  have os: "fst (output_size wide) = 4" "snd (output_size wide) = 2" by (simp_all add: wide_def)
  have j: "2 \<le> j" "j < 4" using assms(3,4) by (simp_all add: os)
  have "\<not> overwrite_region 4 2 4 i j" if "i < 4" for i
    using that j(1) by (rule wide_region)
  moreover have "current_frame (run_steps wide z img n) ! r ! j = initial_frame img ! r ! j"
    using assms(1,2,5) j by (intro wide_columns_kept) (simp_all add: os total_frames_wide)
  ultimately show ?thesis by (simp add: os total_frames_wide)
qed

theorem right_columns_are_never_replaced_witness:
  "1 \<le> total_frames wide \<and> 1 \<le> fst (output_size wide) \<and>
   rect (fst (output_size wide)) (replicate 2 (replicate 4 (255, 255, 255)) :: image) \<and>
   0 < length (replicate 2 (replicate 4 (255, 255, 255)) :: image) \<and>
   snd (output_size wide) \<le> 3 \<and> 3 < fst (output_size wide) \<and> 4 \<le> nat (total_frames wide) \<and>
   \<not> overwrite_region (fst (output_size wide)) (snd (output_size wide)) (total_frames wide) 3 3 \<and>
   current_frame (run_steps wide no_noise (replicate 2 (replicate 4 (255, 255, 255))) 4) ! 0 ! 3
     = initial_frame (replicate 2 (replicate 4 (255, 255, 255))) ! 0 ! 3"
proof -
  let ?img = "replicate 2 (replicate 4 (255, 255, 255)) :: image"
  have os: "fst (output_size wide) = 4" "snd (output_size wide) = 2" by (simp_all add: wide_def)
  have v1: "1 \<le> total_frames wide" by (simp add: total_frames_wide)
  have v2: "1 \<le> fst (output_size wide)" by (simp add: os)
  have h1: "rect (fst (output_size wide)) ?img" by (simp add: os rect_nth)
  have h2: "0 < length ?img" by simp
  have h3: "snd (output_size wide) \<le> 3" by (simp add: os)
  have h4: "3 < fst (output_size wide)" by (simp add: os)
  have h5: "4 \<le> nat (total_frames wide)" by (simp add: total_frames_wide)
  have i3: "3 < nat (total_frames wide)" by (simp add: total_frames_wide)
  note inst = right_columns_are_never_replaced [OF h1 h2 h3 h4 h5, of no_noise]
  from inst i3 have a: "\<not> overwrite_region (fst (output_size wide)) (snd (output_size wide)) (total_frames wide) 3 3"
    by blast
  from inst have b: "current_frame (run_steps wide no_noise ?img 4) ! 0 ! 3 = initial_frame ?img ! 0 ! 3"
    by blast
  from v1 v2 h1 h2 h3 h4 h5 a b show ?thesis by (intro conjI)
qed

text \<open>
  Coverage where the buffer has \<open>W = output_size[1]\<close> columns, as for the square sizes:
  for every column below \<open>W\<close> there is a step among the \<open>total_frames\<close> steps whose
  overwrite region holds it, and that step's overwrite puts the evolved column there.
\<close>

theorem every_column_is_replaced:
  assumes "1 \<le> total_frames c" and "j < snd (output_size c)"
  shows "\<exists>i<nat (total_frames c).
           overwrite_region (snd (output_size c)) (snd (output_size c)) (total_frames c) i j \<and>
           (\<forall>(cur :: 'a list list) ev r. rect (snd (output_size c)) cur \<and> r < length cur \<longrightarrow>
              overwrite c (total_frames c) i cur ev ! r ! j = ev ! r ! j)"
proof -
  define t where "t = nat (total_frames c)"
  define S where "S = snd (output_size c)"
  have t: "0 < t" and T: "total_frames c = int t" using assms(1) by (simp_all add: t_def)
  have j: "j < S" using assms(2) by (simp add: S_def)
  obtain i where i: "i < t" "(i * S) div t \<le> j" "j < (i * S) div t + max 1 ((2 * S) div t)"
    using cover_step [OF t j] by blast
  have reg: "overwrite_region S S (int t) i j"
    unfolding overwrite_region_nat [OF t j] using i by (simp add: Let_def)
  have ov: "overwrite c (int t) i cur ev ! r ! j = ev ! r ! j"
    if "rect S cur \<and> r < length cur" for cur ev :: "'a list list" and r
  proof -
    have len: "length (cur ! r) = S" using that by (simp add: rect_nth)
    show ?thesis using that j reg by (simp add: overwrite_nth len S_def [symmetric])
  qed
  show ?thesis unfolding T S_def [symmetric]
  proof (intro exI [of _ i] conjI allI impI)
    show "i < nat (int t)" using i(1) by simp
    show "overwrite_region S S (int t) i j" by (rule reg)
    fix cur ev :: "'a list list" and r
    assume "rect S cur \<and> r < length cur"
    then show "overwrite c (int t) i cur ev ! r ! j = ev ! r ! j" by (rule ov)
  qed
qed

theorem every_column_is_replaced_witness:
  "1 \<le> total_frames init \<and> 511 < snd (output_size init) \<and>
   (\<exists>i<nat (total_frames init).
      overwrite_region (snd (output_size init)) (snd (output_size init)) (total_frames init) i 511 \<and>
      overwrite init (total_frames init) i (replicate 1 (replicate 512 (0::nat)))
          (replicate 1 (replicate 512 1)) ! 0 ! 511 = 1)"
proof -
  have h1: "1 \<le> total_frames init" by (simp add: total_frames_init)
  have h2: "511 < snd (output_size init)" by (simp add: init_def)
  have S: "snd (output_size init) = 512" by (simp add: init_def)
  obtain i where i: "i < nat (total_frames init)"
    "overwrite_region (snd (output_size init)) (snd (output_size init)) (total_frames init) i 511"
    "\<forall>(cur :: nat list list) ev r. rect (snd (output_size init)) cur \<and> r < length cur \<longrightarrow>
       overwrite init (total_frames init) i cur ev ! r ! 511 = ev ! r ! 511"
    using every_column_is_replaced [OF h1 h2, where ?'a = nat] by blast
  have "rect (snd (output_size init)) (replicate 1 (replicate 512 (0::nat))) \<and>
      0 < length (replicate 1 (replicate 512 (0::nat)))"
    by (simp add: S rect_nth)
  with i(3) have "overwrite init (total_frames init) i (replicate 1 (replicate 512 (0::nat)))
          (replicate 1 (replicate 512 1)) ! 0 ! 511 = replicate 1 (replicate 512 (1::nat)) ! 0 ! 511"
    by blast
  then have "overwrite init (total_frames init) i (replicate 1 (replicate 512 (0::nat)))
          (replicate 1 (replicate 512 1)) ! 0 ! 511 = 1"
    by simp
  with i(1,2) h1 h2 show ?thesis by blast
qed

end
